theory Spec2Isabelle
  imports Complex_Main "HOL-Library.Sublist" "HOL-Library.AList"
begin

section \<open>Data model\<close>

text \<open>
  The pipeline works on pandas data frames.  A frame is modelled as its list of column
  labels together with its rows in order; a row maps column labels to cells (an
  association list, one entry per column; a column without an entry reads as missing).
  Row labels (the pandas index) are not modelled: no stage reads them and \<open>to_sql\<close> is
  called with \<open>index=False\<close>.

  A cell is one of the three missing markers of pandas (\<open>Missing\<close> is the float NaN,
  \<open>NoneV\<close> is Python's \<open>None\<close>, \<open>NaT\<close> is the missing timestamp), a Python int, a float, a
  string or a timestamp.  A float is given by the rational number it stands for:
  infinities are outside the model, and the rounding of float arithmetic is not
  computed here but left to the library (see \<open>externals\<close> below).  Timestamps are
  nanoseconds since the epoch.  Other kinds of values (booleans, nullable-integer
  markers, time zones) are not modelled.
\<close>

datatype cell = Missing | NoneV | NaT | IntV int | FloatV rat | StrV string | DateV int

type_synonym row = "(string \<times> cell) list"

record dataframe =
  columns :: "string list"
  rows :: "row list"

text \<open>Exceptions of the Python program, as values.\<close>

datatype exn =
    ValueError string
  | KeyError "string list"
  | TypeError
  | RuntimeError string
  | ZeroDivisionError
  | DateParseError cell
  | ExternalError string

datatype if_exists = Append | Replace | Fail

datatype engine = Engine string

record config =
  db_host :: string
  db_port :: string
  db_name :: string
  db_user :: string
  db_password :: string
  input_path :: string
  batch_size :: int

text \<open>The messages that the program sends to its logger, in the order of the source.\<close>

datatype log_msg =
    PipelineInitialized
  | ConnectionEstablished
  | ConnectionFailed exn
  | ExtractStart string
  | Extracted nat string
  | ExtractError exn
  | TransformStart
  | RemovedDuplicates nat
  | TransformComplete nat
  | TransformError exn
  | LoadStart string
  | LoadedBatch int int
  | LoadComplete nat string
  | LoadError exn
  | Separator
  | PipelineStarting
  | SourceIs string
  | TargetIs string
  | PipelineCompleted
  | DurationIs
  | RecordsProcessed nat
  | PipelineFailed exn

datatype log_entry = Info log_msg | Error log_msg

text \<open>
  What \<open>pd.to_datetime\<close> makes of one value that is neither missing nor a timestamp
  already: it rejects the value (and raises), it reads it as a missing date (as it does
  for the empty string), or it reads it as a timestamp.
\<close>

datatype parsed = Rejected | NullDate | Stamp int

text \<open>
  The library calls whose code is not part of the repository are parameters of the
  model:
  \<^item> the SQLAlchemy engine constructor, the pandas file readers, and the pandas table
    writer (acting on a destination of type \<open>'db\<close>);
  \<^item> \<open>parse_datetime v0 v\<close>, the reading of the value \<open>v\<close> by \<open>pd.to_datetime\<close> in a
    column whose first value that is not missing is \<open>v0\<close> (pandas infers the format of
    the whole column from that value);
  \<^item> \<open>parse_numeric\<close>, the reading of a string by \<open>pd.to_numeric\<close> (\<open>None\<close> when it does
    not parse; a parsed number is an int, \<open>Inl\<close>, or a float, \<open>Inr\<close>);
  \<^item> the arithmetic of the two columns that are multiplied: \<open>int_mul\<close> is the product
    of two ints (exact on Python ints, wrapped to 64 bits in integer columns),
    \<open>float_mul\<close> the rounded product of two floats, \<open>float_of_int\<close> the rounded
    conversion of an int to a float;
  \<^item> \<open>mul_opaque\<close>, the product of two columns of which one holds nothing but
    timestamps and missing timestamps, or no value at all: what pandas does then
    depends on the storage type of the column (it raises \<open>TypeError\<close> for a timestamp
    column), which the frame model does not carry;
  \<^item> \<open>mul_other xs ys (a, b)\<close>, the product of the two values \<open>a\<close> and \<open>b\<close>, one of
    them a missing timestamp, inside the columns \<open>xs\<close> and \<open>ys\<close>.
\<close>

record 'db externals =
  create_engine :: "string \<Rightarrow> exn + engine"
  read_csv :: "string \<Rightarrow> exn + dataframe"
  read_excel :: "string \<Rightarrow> exn + dataframe"
  to_sql :: "'db \<Rightarrow> dataframe \<Rightarrow> string \<Rightarrow> engine \<Rightarrow> if_exists \<Rightarrow> exn + 'db"
  parse_datetime :: "cell \<Rightarrow> cell \<Rightarrow> parsed"
  parse_numeric :: "string \<Rightarrow> (int + rat) option"
  int_mul :: "int \<Rightarrow> int \<Rightarrow> int"
  float_mul :: "rat \<Rightarrow> rat \<Rightarrow> rat"
  float_of_int :: "int \<Rightarrow> rat"
  mul_opaque :: "cell list \<Rightarrow> cell list \<Rightarrow> exn + cell list"
  mul_other :: "cell list \<Rightarrow> cell list \<Rightarrow> cell \<times> cell \<Rightarrow> exn + cell"

text \<open>
  The state of a \<open>RetailETLPipeline\<close> object (its configuration and engine), the log
  written so far, the destination database, and the trace of \<open>to_sql\<close> calls issued
  so far (table name, batch, mode).  The timing fields \<open>start_time\<close> and \<open>end_time\<close>
  only feed a log message and are left out.
\<close>

record 'db pipeline =
  config :: config
  engine :: "engine option"
  log :: "log_entry list"
  db :: 'db
  sql_calls :: "(string \<times> dataframe \<times> if_exists) list"

definition info :: "log_msg \<Rightarrow> 'db pipeline \<Rightarrow> 'db pipeline" where
  "info m s = s\<lparr>log := log s @ [Info m]\<rparr>"

definition error :: "log_msg \<Rightarrow> 'db pipeline \<Rightarrow> 'db pipeline" where
  "error m s = s\<lparr>log := log s @ [Error m]\<rparr>"

section \<open>Load\<close>

text \<open>Python's \<open>xs[i:j]\<close>: negative bounds count from the end, all bounds are clipped.\<close>

definition slice_bound :: "nat \<Rightarrow> int \<Rightarrow> nat" where
  "slice_bound n k = (if k < 0 then nat (max 0 (int n + k)) else min n (nat k))"

definition iloc :: "dataframe \<Rightarrow> int \<Rightarrow> int \<Rightarrow> dataframe" where
  "iloc df i j =
     (let n = length (rows df); a = slice_bound n i; b = slice_bound n j
      in df\<lparr>rows := take (b - a) (drop a (rows df))\<rparr>)"

text \<open>
  The loop \<open>for i in range(0, len(df), batch_size)\<close> of \<open>load\<close>, entered at offset
  \<open>i\<close>.  A non-positive step gives an empty range here (the start is 0 and the stop is
  not negative).  The first component of the result is the exception that left the
  loop, if any.
\<close>

function load_batches ::
  "'db externals \<Rightarrow> dataframe \<Rightarrow> string \<Rightarrow> if_exists \<Rightarrow> engine \<Rightarrow> int \<Rightarrow> int \<Rightarrow> int \<Rightarrow>
   'db pipeline \<Rightarrow> exn option \<times> 'db pipeline" where
  "load_batches X df table_name mode eng bsz total_batches i s =
     (if 0 < bsz \<and> i < int (length (rows df)) then
        (let batch = iloc df i (i + bsz);
             m = (if i = 0 then mode else Append);
             s1 = s\<lparr>sql_calls := sql_calls s @ [(table_name, batch, m)]\<rparr>
         in case to_sql X (db s1) batch table_name eng m of
              Inl e \<Rightarrow> (Some e, s1)
            | Inr d \<Rightarrow>
                load_batches X df table_name mode eng bsz total_batches (i + bsz)
                  (info (LoadedBatch (i div bsz + 1) total_batches) (s1\<lparr>db := d\<rparr>)))
      else (None, s))"
  by pat_completeness auto
termination
  by (relation "measure (\<lambda>(X, df, t, m, e, b, tb, i, s). nat (int (length (rows df)) - i))") auto

declare load_batches.simps [simp del]

definition load ::
  "'db externals \<Rightarrow> dataframe \<Rightarrow> string \<Rightarrow> if_exists \<Rightarrow> 'db pipeline \<Rightarrow> bool \<times> 'db pipeline" where
  "load X df table_name mode s =
     (let s0 = info (LoadStart table_name) s in
      case engine s0 of
        None \<Rightarrow>
          (False, error (LoadError (RuntimeError ''Database connection not established'')) s0)
      | Some eng \<Rightarrow>
          (let bsz = batch_size (config s0); n = int (length (rows df)) in
           if bsz = 0 then (False, error (LoadError ZeroDivisionError) s0)
           else
             (let total_batches = n div bsz + (if n mod bsz \<noteq> 0 then 1 else 0) in
              case load_batches X df table_name mode eng bsz total_batches 0 s0 of
                (Some e, s1) \<Rightarrow> (False, error (LoadError e) s1)
              | (None, s1) \<Rightarrow> (True, info (LoadComplete (length (rows df)) table_name) s1))))"

section \<open>The batching plan\<close>

text \<open>
  What the specification says \<open>load\<close> does, stated independently of the loop: the frame
  is cut into \<open>num_chunks\<close> consecutive chunks of \<open>b\<close> rows (the last one may be shorter),
  the first chunk is written in the caller's mode and the others in append mode, and the
  writes are issued in order until one fails.
\<close>

definition num_chunks :: "nat \<Rightarrow> int \<Rightarrow> nat" where
  "num_chunks n b = (n + nat b - 1) div nat b"

definition chunk :: "dataframe \<Rightarrow> int \<Rightarrow> nat \<Rightarrow> dataframe" where
  "chunk df b k = df\<lparr>rows := take (nat b) (drop (k * nat b) (rows df))\<rparr>"

definition chunk_mode :: "if_exists \<Rightarrow> nat \<Rightarrow> if_exists" where
  "chunk_mode mode k = (if k = 0 then mode else Append)"

definition batch_plan :: "dataframe \<Rightarrow> if_exists \<Rightarrow> int \<Rightarrow> (dataframe \<times> if_exists) list" where
  "batch_plan df mode b =
     map (\<lambda>k. (chunk df b k, chunk_mode mode k)) [0..<num_chunks (length (rows df)) b]"

fun write_chunks ::
  "'db externals \<Rightarrow> string \<Rightarrow> engine \<Rightarrow> 'db \<Rightarrow> (dataframe \<times> if_exists) list \<Rightarrow> exn + 'db" where
  "write_chunks X t e d [] = Inr d"
| "write_chunks X t e d ((c, m) # cs) =
     (case to_sql X d c t e m of Inl x \<Rightarrow> Inl x | Inr d' \<Rightarrow> write_chunks X t e d' cs)"

section \<open>Frames\<close>

definition cell_of :: "row \<Rightarrow> string \<Rightarrow> cell" where
  "cell_of r c = (case map_of r c of None \<Rightarrow> Missing | Some v \<Rightarrow> v)"

definition get_column :: "string \<Rightarrow> dataframe \<Rightarrow> cell list" where
  "get_column c df = map (\<lambda>r. cell_of r c) (rows df)"

text \<open>
  \<open>df[c] = values\<close>: an existing column is overwritten in place, a new one is added as
  the last column.
\<close>

definition set_column :: "string \<Rightarrow> cell list \<Rightarrow> dataframe \<Rightarrow> dataframe" where
  "set_column c vs df =
     df\<lparr>columns := (if c \<in> set (columns df) then columns df else columns df @ [c]),
        rows := map (\<lambda>(r, v). AList.update c v r) (zip (rows df) vs)\<rparr>"

definition isnull :: "cell \<Rightarrow> bool" where
  "isnull v = (v = Missing \<or> v = NoneV \<or> v = NaT)"

fun num_val :: "cell \<Rightarrow> rat option" where
  "num_val (IntV n) = Some (of_int n)"
| "num_val (FloatV q) = Some q"
| "num_val _ = None"

text \<open>
  Equality of values as pandas' duplicate detection sees it.  Numbers are compared by
  value (the int 1 and the float 1.0 are the same); other values are compared as they
  are, so NaN equals NaN and \<open>None\<close> equals \<open>None\<close>.  For a frame with one column pandas
  compares the values of that column in this way, which keeps \<open>None\<close>, NaN and the
  missing timestamp apart.  For a frame with several columns it numbers the values of
  each column first, giving all missing markers of a column the same number, so there
  the missing markers are equal to each other.
\<close>

definition value_eq :: "cell \<Rightarrow> cell \<Rightarrow> bool" where
  "value_eq a b = (a = b \<or> (num_val a \<noteq> None \<and> num_val a = num_val b))"

definition cell_eq :: "bool \<Rightarrow> cell \<Rightarrow> cell \<Rightarrow> bool" where
  "cell_eq single a b = (value_eq a b \<or> (\<not> single \<and> isnull a \<and> isnull b))"

definition rows_agree :: "bool \<Rightarrow> string list \<Rightarrow> row \<Rightarrow> row \<Rightarrow> bool" where
  "rows_agree single cs r1 r2 = list_all (\<lambda>c. cell_eq single (cell_of r1 c) (cell_of r2 c)) cs"

definition row_eq :: "string list \<Rightarrow> row \<Rightarrow> row \<Rightarrow> bool" where
  "row_eq cols r1 r2 = rows_agree (length cols = 1) cols r1 r2"

text \<open>\<open>df.empty\<close>: the frame has no column or no row.\<close>

definition empty_frame :: "dataframe \<Rightarrow> bool" where
  "empty_frame df = (columns df = [] \<or> rows df = [])"

text \<open>
  \<open>df.duplicated()\<close> with the default \<open>keep='first'\<close>: a row is marked when an earlier row
  equals it on every column.  For an empty frame pandas returns an empty series.
\<close>

fun duplicated_from :: "string list \<Rightarrow> row list \<Rightarrow> row list \<Rightarrow> bool list" where
  "duplicated_from cols seen [] = []"
| "duplicated_from cols seen (r # rs) =
     list_ex (\<lambda>s. row_eq cols s r) seen # duplicated_from cols (seen @ [r]) rs"

definition duplicated :: "dataframe \<Rightarrow> bool list" where
  "duplicated df = (if empty_frame df then [] else duplicated_from (columns df) [] (rows df))"

text \<open>
  \<open>df.drop_duplicates()\<close>: an empty frame is returned as it is, otherwise the rows that
  \<open>duplicated\<close> does not mark are kept.
\<close>

definition drop_duplicates :: "dataframe \<Rightarrow> dataframe" where
  "drop_duplicates df =
     (if empty_frame df then df
      else df\<lparr>rows := map fst (filter (\<lambda>(r, d). \<not> d) (zip (rows df) (duplicated df)))\<rparr>)"

text \<open>
  \<open>df.dropna(subset=...)\<close>: a \<open>KeyError\<close> when a column of the subset is not in the
  frame, otherwise the rows with a missing value in one of these columns are removed.
\<close>

definition dropna :: "string list \<Rightarrow> dataframe \<Rightarrow> exn + dataframe" where
  "dropna subset_cols df =
     (let absent = filter (\<lambda>c. c \<notin> set (columns df)) subset_cols in
      if absent \<noteq> [] then Inl (KeyError absent)
      else Inr (df\<lparr>rows :=
             filter (\<lambda>r. \<not> list_ex (\<lambda>c. isnull (cell_of r c)) subset_cols) (rows df)\<rparr>))"

text \<open>Applying a conversion that may raise to every value of a column, in order.\<close>

fun map_result :: "('a \<Rightarrow> exn + 'b) \<Rightarrow> 'a list \<Rightarrow> exn + 'b list" where
  "map_result f [] = Inr []"
| "map_result f (x # xs) =
     (case f x of
        Inl e \<Rightarrow> Inl e
      | Inr y \<Rightarrow> (case map_result f xs of Inl e \<Rightarrow> Inl e | Inr ys \<Rightarrow> Inr (y # ys)))"

text \<open>
  \<open>pd.to_datetime\<close> with its default \<open>errors='raise'\<close>: a missing value becomes the
  missing timestamp, a timestamp is kept, any other value is handed to the library
  parser together with the first value of the column that is not missing, and a value
  that the parser rejects raises.
\<close>

fun first_non_null :: "cell list \<Rightarrow> cell option" where
  "first_non_null [] = None"
| "first_non_null (v # vs) = (if isnull v then first_non_null vs else Some v)"

fun is_date :: "cell \<Rightarrow> bool" where
  "is_date (DateV t) = True"
| "is_date _ = False"

definition to_datetime_cell :: "'db externals \<Rightarrow> cell \<Rightarrow> cell \<Rightarrow> exn + cell" where
  "to_datetime_cell X v0 v =
     (if isnull v then Inr NaT
      else if is_date v then Inr v
      else (case parse_datetime X v0 v of
              Rejected \<Rightarrow> Inl (DateParseError v)
            | NullDate \<Rightarrow> Inr NaT
            | Stamp t \<Rightarrow> Inr (DateV t)))"

definition to_datetime :: "'db externals \<Rightarrow> cell list \<Rightarrow> exn + cell list" where
  "to_datetime X vs =
     (case first_non_null vs of
        None \<Rightarrow> Inr (map (\<lambda>v. NaT) vs)
      | Some v0 \<Rightarrow> map_result (to_datetime_cell X v0) vs)"

text \<open>
  The product of two columns.  When each column holds at least one value that is
  not a timestamp or a missing timestamp, pandas multiplies value by value: a missing
  operand (NaN or \<open>None\<close>) gives NaN; numbers are multiplied with the arithmetic of the
  library (the result is a float as soon as one operand is); a string times an int is
  the repeated string; a pair with a missing timestamp is left to the library; every
  other pair raises \<open>TypeError\<close>.  When a column holds nothing but timestamps and missing
  timestamps, or nothing at all, the whole product is left to the library.  The model
  does not bound its ints: what the library does with a Python int that does not fit
  64 bits (it may refuse the product) is not modelled.
\<close>

fun py_mul :: "'db externals \<Rightarrow> cell \<Rightarrow> cell \<Rightarrow> exn + cell" where
  "py_mul X (IntV a) (IntV b) = Inr (IntV (int_mul X a b))"
| "py_mul X (IntV a) (FloatV b) = Inr (FloatV (float_mul X (float_of_int X a) b))"
| "py_mul X (FloatV a) (IntV b) = Inr (FloatV (float_mul X a (float_of_int X b)))"
| "py_mul X (FloatV a) (FloatV b) = Inr (FloatV (float_mul X a b))"
| "py_mul X (StrV s) (IntV n) = Inr (StrV (concat (replicate (nat n) s)))"
| "py_mul X (IntV n) (StrV s) = Inr (StrV (concat (replicate (nat n) s)))"
| "py_mul X _ _ = Inl TypeError"

definition mul_cell ::
  "'db externals \<Rightarrow> cell list \<Rightarrow> cell list \<Rightarrow> cell \<times> cell \<Rightarrow> exn + cell" where
  "mul_cell X xs ys p =
     (if fst p = NaT \<or> snd p = NaT then mul_other X xs ys p
      else if isnull (fst p) \<or> isnull (snd p) then Inr Missing
      else py_mul X (fst p) (snd p))"

definition stamp_column :: "cell list \<Rightarrow> bool" where
  "stamp_column xs = list_all (\<lambda>v. is_date v \<or> v = NaT) xs"

definition mul_columns :: "'db externals \<Rightarrow> cell list \<Rightarrow> cell list \<Rightarrow> exn + cell list" where
  "mul_columns X xs ys =
     (if stamp_column xs \<or> stamp_column ys then mul_opaque X xs ys
      else map_result (mul_cell X xs ys) (zip xs ys))"

text \<open>
  \<open>pd.to_numeric(..., errors='coerce')\<close>: numbers are kept, a string is handed to the
  library parser and becomes NaN when it does not parse, NaN and \<open>None\<close> become NaN, a
  timestamp is read as its nanosecond count and a missing timestamp as the value that
  stores it, the least 64-bit integer.  The resulting column has one numeric type: when
  it is not made of ints only, its ints become floats.
\<close>

fun to_numeric_cell :: "'db externals \<Rightarrow> cell \<Rightarrow> cell" where
  "to_numeric_cell X Missing = Missing"
| "to_numeric_cell X NoneV = Missing"
| "to_numeric_cell X NaT = IntV (- 9223372036854775808)"
| "to_numeric_cell X (IntV n) = IntV n"
| "to_numeric_cell X (FloatV q) = FloatV q"
| "to_numeric_cell X (DateV t) = IntV t"
| "to_numeric_cell X (StrV s) =
     (case parse_numeric X s of None \<Rightarrow> Missing | Some (Inl n) \<Rightarrow> IntV n | Some (Inr q) \<Rightarrow> FloatV q)"

fun is_int :: "cell \<Rightarrow> bool" where
  "is_int (IntV n) = True"
| "is_int _ = False"

fun as_float :: "'db externals \<Rightarrow> cell \<Rightarrow> cell" where
  "as_float X (IntV n) = FloatV (float_of_int X n)"
| "as_float X v = v"

definition to_numeric :: "'db externals \<Rightarrow> cell list \<Rightarrow> cell list" where
  "to_numeric X vs =
     (let ws = map (to_numeric_cell X) vs
      in if list_all is_int ws then ws else map (as_float X) ws)"

text \<open>
  The comparison \<open>> 0\<close> on a numeric column; a missing value compares false.  The two
  columns it is applied to have been through \<open>to_numeric\<close>, so no other kind of value
  reaches it.
\<close>

fun gt_zero :: "cell \<Rightarrow> bool" where
  "gt_zero (IntV n) = (0 < n)"
| "gt_zero (FloatV q) = (0 < q)"
| "gt_zero _ = False"

definition keep_positive :: "string \<Rightarrow> dataframe \<Rightarrow> dataframe" where
  "keep_positive c df = df\<lparr>rows := filter (\<lambda>r. gt_zero (cell_of r c)) (rows df)\<rparr>"

section \<open>Transform\<close>

text \<open>The steps of \<open>transform\<close> after the removal of duplicates, in the order of the source.\<close>

definition convert_dates :: "'db externals \<Rightarrow> dataframe \<Rightarrow> exn + dataframe" where
  "convert_dates X df =
     (if ''date'' \<in> set (columns df) then
        (case to_datetime X (get_column ''date'' df) of
           Inl e \<Rightarrow> Inl e
         | Inr ds \<Rightarrow> Inr (set_column ''date'' ds df))
      else Inr df)"

definition derive_total :: "'db externals \<Rightarrow> dataframe \<Rightarrow> exn + dataframe" where
  "derive_total X df =
     (if ''quantity'' \<in> set (columns df) \<and> ''price'' \<in> set (columns df) then
        (case mul_columns X (get_column ''quantity'' df) (get_column ''price'' df) of
           Inl e \<Rightarrow> Inl e
         | Inr ts \<Rightarrow> Inr (set_column ''total_amount'' ts df))
      else Inr df)"

definition coerce_numeric :: "'db externals \<Rightarrow> string \<Rightarrow> dataframe \<Rightarrow> dataframe" where
  "coerce_numeric X c df =
     (if c \<in> set (columns df) then set_column c (to_numeric X (get_column c df)) df else df)"

definition remove_invalid :: "string \<Rightarrow> dataframe \<Rightarrow> dataframe" where
  "remove_invalid c df = (if c \<in> set (columns df) then keep_positive c df else df)"

definition clean_steps :: "'db externals \<Rightarrow> dataframe \<Rightarrow> exn + dataframe" where
  "clean_steps X df =
     (case dropna [''transaction_id'', ''date''] df of
        Inl e \<Rightarrow> Inl e
      | Inr df2 \<Rightarrow>
          (case convert_dates X df2 of
             Inl e \<Rightarrow> Inl e
           | Inr df3 \<Rightarrow>
               (case derive_total X df3 of
                  Inl e \<Rightarrow> Inl e
                | Inr df4 \<Rightarrow>
                    Inr (remove_invalid ''price'' (remove_invalid ''quantity''
                          (coerce_numeric X ''price'' (coerce_numeric X ''quantity'' df4)))))))"

text \<open>The table that \<open>transform\<close> returns, or the exception that it raises.\<close>

definition transform_result :: "'db externals \<Rightarrow> dataframe \<Rightarrow> exn + dataframe" where
  "transform_result X df = clean_steps X (drop_duplicates df)"

definition transform ::
  "'db externals \<Rightarrow> dataframe \<Rightarrow> 'db pipeline \<Rightarrow> (exn + dataframe) \<times> 'db pipeline" where
  "transform X df s =
     (let s0 = info TransformStart s;
          df1 = drop_duplicates df;
          s1 = info (RemovedDuplicates (length (rows df) - length (rows df1))) s0
      in case clean_steps X df1 of
           Inl e \<Rightarrow> (Inl e, error (TransformError e) s1)
         | Inr out \<Rightarrow> (Inr out, info (TransformComplete (length (rows out))) s1))"

section \<open>Connect, extract, run, validate\<close>

definition connect_database :: "'db externals \<Rightarrow> 'db pipeline \<Rightarrow> bool \<times> 'db pipeline" where
  "connect_database X s =
     (let c = config s;
          connection_string =
            ''postgresql://'' @ db_user c @ '':'' @ db_password c @ ''@'' @ db_host c @
            '':'' @ db_port c @ ''/'' @ db_name c
      in case create_engine X connection_string of
           Inl e \<Rightarrow> (False, error (ConnectionFailed e) s)
         | Inr eng \<Rightarrow> (True, info ConnectionEstablished (s\<lparr>engine := Some eng\<rparr>)))"

definition extract_df ::
  "'db externals \<Rightarrow> string \<Rightarrow> 'db pipeline \<Rightarrow> (exn + dataframe) \<times> 'db pipeline" where
  "extract_df X source_path s =
     (let s0 = info (ExtractStart source_path) s;
          r = (if suffix ''.csv'' source_path then read_csv X source_path
               else if suffix ''.xlsx'' source_path then read_excel X source_path
               else Inl (ValueError (''Unsupported file format: '' @ source_path)))
      in case r of
           Inl e \<Rightarrow> (Inl e, error (ExtractError e) s0)
         | Inr df \<Rightarrow> (Inr df, info (Extracted (length (rows df)) source_path) s0))"

definition run :: "'db externals \<Rightarrow> string \<Rightarrow> string \<Rightarrow> 'db pipeline \<Rightarrow> bool \<times> 'db pipeline" where
  "run X source_path target_table s =
     (let s0 = info Separator (info (TargetIs target_table) (info (SourceIs source_path)
                 (info PipelineStarting (info Separator s))))
      in case connect_database X s0 of
           (False, s1) \<Rightarrow> (False, s1)
         | (True, s1) \<Rightarrow>
             (case extract_df X source_path s1 of
                (Inl e, s2) \<Rightarrow> (False, error (PipelineFailed e) s2)
              | (Inr raw_data, s2) \<Rightarrow>
                  (case transform X raw_data s2 of
                     (Inl e, s3) \<Rightarrow> (False, error (PipelineFailed e) s3)
                   | (Inr clean_data, s3) \<Rightarrow>
                       (case load X clean_data target_table Append s3 of
                          (False, s4) \<Rightarrow> (False, s4)
                        | (True, s4) \<Rightarrow>
                            (True, info Separator (info (RecordsProcessed (length (rows clean_data)))
                               (info DurationIs (info PipelineCompleted (info Separator s4)))))))))"

text \<open>
  The report of \<open>validate_data\<close>.  The frame model carries no storage types, so the
  \<open>data_types\<close> entry of the report is left out.
\<close>

record validation_results =
  total_records :: nat
  missing_values :: "(string \<times> nat) list"
  duplicate_records :: nat
  report_columns :: "string list"

definition validate_data :: "dataframe \<Rightarrow> validation_results" where
  "validate_data df =
     \<lparr>total_records = length (rows df),
      missing_values =
        map (\<lambda>c. (c, length (filter isnull (get_column c df)))) (columns df),
      duplicate_records = length (filter (\<lambda>d. d) (duplicated df)),
      report_columns = columns df\<rparr>"

section \<open>Clean tables\<close>

text \<open>
  The tables on which \<open>transform\<close> is expected to change nothing more: the four columns
  are there, no two rows are equal, no row lacks a transaction id, every date is a
  timestamp already, and quantity and price are numeric columns (all 64-bit ints or all
  floats) of positive numbers.  For a table without rows the cells cannot show that
  quantity and price are numeric columns; what it means there is that the library
  multiplies the two empty columns without raising.  \<open>distinct_besides_total\<close> is the
  stronger form of having no two equal rows: no two rows are equal on the columns other
  than \<open>total_amount\<close>, the column that \<open>transform\<close> overwrites.
\<close>

fun is_float :: "cell \<Rightarrow> bool" where
  "is_float (FloatV q) = True"
| "is_float _ = False"

fun is_int64 :: "cell \<Rightarrow> bool" where
  "is_int64 (IntV n) = (- 9223372036854775808 \<le> n \<and> n < 9223372036854775808)"
| "is_int64 _ = False"

definition numeric_column :: "string \<Rightarrow> dataframe \<Rightarrow> bool" where
  "numeric_column c df =
     (list_all is_int64 (get_column c df) \<or> list_all is_float (get_column c df))"


definition other_columns :: "dataframe \<Rightarrow> string list" where
  "other_columns df = filter (\<lambda>c. c \<noteq> ''total_amount'') (columns df)"

definition clean_table :: "'db externals \<Rightarrow> dataframe \<Rightarrow> bool" where
  "clean_table X df =
     (set [''transaction_id'', ''date'', ''quantity'', ''price''] \<subseteq> set (columns df) \<and>
      sorted_wrt (\<lambda>a b. \<not> row_eq (columns df) a b) (rows df) \<and>
      list_all (\<lambda>r. \<not> isnull (cell_of r ''transaction_id'') \<and> is_date (cell_of r ''date'') \<and>
                    gt_zero (cell_of r ''quantity'') \<and> gt_zero (cell_of r ''price'')) (rows df) \<and>
      numeric_column ''quantity'' df \<and> numeric_column ''price'' df \<and>
      (rows df = [] \<longrightarrow> mul_opaque X [] [] = Inr []))"

definition distinct_besides_total :: "dataframe \<Rightarrow> bool" where
  "distinct_besides_total df =
     sorted_wrt (\<lambda>a b. \<not> rows_agree False (other_columns df) a b) (rows df)"

section \<open>A reference environment\<close>

text \<open>
  Concrete stand-ins for the library calls, used to run the model on examples: an
  in-memory destination (a list of named tables) that rejects a write which would grow a
  table beyond \<open>cap\<close> rows, an engine constructor that always succeeds, a file system
  without files, parsers that know a handful of literals (the empty string is read as
  a missing date, as pandas reads it), integer products wrapped to 64 bits, and float
  products and conversions that are computed exactly, which is what the rounded ones
  give on the small numbers of the examples.  Of the products that the model leaves to
  the library, the one of two empty columns is the empty column, the one of other whole
  columns raises \<open>TypeError\<close>, and the one of a single pair is the missing timestamp.
\<close>

type_synonym memdb = "(string \<times> row list) list"

definition mem_store :: "nat \<Rightarrow> memdb \<Rightarrow> string \<Rightarrow> row list \<Rightarrow> exn + memdb" where
  "mem_store cap d t rs =
     (if cap < length rs then Inl (ExternalError ''destination full'')
      else Inr ((t, rs) # filter (\<lambda>p. fst p \<noteq> t) d))"

definition mem_to_sql ::
  "nat \<Rightarrow> memdb \<Rightarrow> dataframe \<Rightarrow> string \<Rightarrow> engine \<Rightarrow> if_exists \<Rightarrow> exn + memdb" where
  "mem_to_sql cap d batch t e m =
     (case m of
        Append \<Rightarrow>
          mem_store cap d t ((case map_of d t of None \<Rightarrow> [] | Some rs \<Rightarrow> rs) @ rows batch)
      | Replace \<Rightarrow> mem_store cap d t (rows batch)
      | Fail \<Rightarrow>
          (if map_of d t = None then mem_store cap d t (rows batch)
           else Inl (ValueError ''Table already exists'')))"

definition wrap64 :: "int \<Rightarrow> int" where
  "wrap64 n = (n + 9223372036854775808) mod 18446744073709551616 - 9223372036854775808"

fun demo_parse_datetime :: "cell \<Rightarrow> cell \<Rightarrow> parsed" where
  "demo_parse_datetime v0 (StrV s) =
     (if s = [] then NullDate
      else (case map_of [(''2024-01-01'', 1704067200000000000),
                         (''2024-01-02'', 1704153600000000000)] s of
              None \<Rightarrow> Rejected
            | Some t \<Rightarrow> Stamp t))"
| "demo_parse_datetime v0 (IntV n) = Stamp n"
| "demo_parse_datetime v0 v = Rejected"

definition demo_externals :: "nat \<Rightarrow> memdb externals" where
  "demo_externals cap =
     \<lparr>create_engine = (\<lambda>url. Inr (Engine url)),
      read_csv = (\<lambda>p. Inl (ExternalError ''no such file'')),
      read_excel = (\<lambda>p. Inl (ExternalError ''no such file'')),
      to_sql = mem_to_sql cap,
      parse_datetime = demo_parse_datetime,
      parse_numeric = map_of [(''2'', Inl 2), (''5'', Inl 5), (''2.5'', Inr (5 / 2))],
      int_mul = (\<lambda>a b. wrap64 (a * b)),
      float_mul = (\<lambda>a b. a * b),
      float_of_int = of_int,
      mul_opaque = (\<lambda>xs ys. if xs = [] \<and> ys = [] then Inr [] else Inl TypeError),
      mul_other = (\<lambda>xs ys p. Inr NaT)\<rparr>"

definition demo_config :: "int \<Rightarrow> config" where
  "demo_config b =
     \<lparr>db_host = ''localhost'', db_port = ''5432'', db_name = ''retail_db'',
      db_user = ''postgres'', db_password = [], input_path = ''data/'', batch_size = b\<rparr>"

definition demo_pipeline :: "int \<Rightarrow> engine option \<Rightarrow> memdb pipeline" where
  "demo_pipeline b e = \<lparr>config = demo_config b, engine = e, log = [], db = [], sql_calls = []\<rparr>"

definition demo_row :: "int \<Rightarrow> row" where
  "demo_row k =
     [(''transaction_id'', IntV k), (''date'', DateV 1704067200000000000),
      (''quantity'', IntV 2), (''price'', FloatV 5)]"

definition demo_frame :: "int list \<Rightarrow> dataframe" where
  "demo_frame ks =
     \<lparr>columns = [''transaction_id'', ''date'', ''quantity'', ''price''], rows = map demo_row ks\<rparr>"

text \<open>
  Example frames: what \<open>transform\<close> makes of \<open>demo_frame\<close>; a frame whose quantity and
  price are text; a frame whose quantity is the text \<open>2\<close> beside the int price 5, and
  what \<open>transform\<close> makes of it; a frame that has neither a quantity nor a price column;
  a frame whose only date is the empty string, and what \<open>transform\<close> makes of it; a frame
  with a missing price beside a positive quantity, and what \<open>transform\<close> makes of it.
\<close>

definition demo_out_row :: "int \<Rightarrow> row" where
  "demo_out_row k = demo_row k @ [(''total_amount'', FloatV 10)]"

definition demo_out_frame :: "int list \<Rightarrow> dataframe" where
  "demo_out_frame ks =
     \<lparr>columns = [''transaction_id'', ''date'', ''quantity'', ''price'', ''total_amount''],
      rows = map demo_out_row ks\<rparr>"








definition bare_frame :: dataframe where
  "bare_frame =
     \<lparr>columns = [''transaction_id'', ''date''],
      rows = [[(''transaction_id'', IntV 1), (''date'', DateV 1704067200000000000)]]\<rparr>"

text \<open>
  Two tables with a stale \<open>total_amount\<close> column and no two equal rows: in the first the
  two rows differ only in \<open>total_amount\<close>, in the second they differ in their transaction
  id as well.
\<close>

definition stale_total_frame :: dataframe where
  "stale_total_frame =
     \<lparr>columns = [''transaction_id'', ''date'', ''quantity'', ''price'', ''total_amount''],
      rows = [demo_row 1 @ [(''total_amount'', FloatV 7)],
              demo_row 1 @ [(''total_amount'', FloatV 8)]]\<rparr>"

definition stale_distinct_frame :: dataframe where
  "stale_distinct_frame =
     \<lparr>columns = [''transaction_id'', ''date'', ''quantity'', ''price'', ''total_amount''],
      rows = [demo_row 1 @ [(''total_amount'', FloatV 7)],
              demo_row 2 @ [(''total_amount'', FloatV 8)]]\<rparr>"

section \<open>Properties of load\<close>

lemma lt_num_chunks: "0 < b \<Longrightarrow> k < num_chunks n b \<longleftrightarrow> k * nat b < n"
proof -
  assume b: "0 < b"
  have "k < num_chunks n b \<longleftrightarrow> Suc k \<le> (n + nat b - 1) div nat b"
    by (simp add: num_chunks_def Suc_le_eq)
  also have "\<dots> \<longleftrightarrow> Suc k * nat b \<le> n + nat b - 1"
    using b by (simp add: less_eq_div_iff_mult_less_eq)
  also have "\<dots> \<longleftrightarrow> k * nat b < n"
    using b by auto
  finally show ?thesis .
qed

lemma num_chunks_code: "0 < b \<Longrightarrow> int (num_chunks n b) = int n div b + (if int n mod b \<noteq> 0 then 1 else 0)"
proof -
  assume b: "0 < b"
  define c where "c = nat b"
  have c: "0 < c" "b = int c" using b by (simp_all add: c_def)
  define q where "q = n div c"
  define r where "r = n mod c"
  have n: "n = q * c + r" and r: "r < c" using c by (simp_all add: q_def r_def)
  have "(n + c - 1) div c = q + (if r \<noteq> 0 then 1 else 0)"
  proof (cases "r = 0")
    case True
    have "c \<noteq> 0" using c by simp
    then have "(c - 1 + q * c) div c = q + (c - 1) div c" by (rule div_mult_self1)
    moreover have "(c - 1) div c = 0" using c by simp
    ultimately have "(c - 1 + q * c) div c = q" by simp
    moreover have "n + c - 1 = c - 1 + q * c" using n True c by simp
    ultimately show ?thesis using True by simp
  next
    case False
    have "n + c - 1 = (r - 1) + (Suc q) * c" using n False c by simp
    moreover have "((r - 1) + (Suc q) * c) div c = Suc q"
    proof -
      have "c \<noteq> 0" using c by simp
      then have "(r - 1 + Suc q * c) div c = Suc q + (r - 1) div c" by (rule div_mult_self1)
      moreover have "(r - 1) div c = 0" using r by simp
      ultimately show ?thesis by simp
    qed
    ultimately show ?thesis using False by simp
  qed
  moreover have "int n div b = int q" "int n mod b = int r"
    using c by (simp_all add: q_def r_def zdiv_int zmod_int)
  ultimately show ?thesis by (simp add: num_chunks_def c_def[symmetric])
qed

lemma num_chunks_ceiling: "0 < b \<Longrightarrow> int (num_chunks n b) = \<lceil>rat_of_nat n / rat_of_int b\<rceil>"
proof -
  assume b: "0 < b"
  have "\<lceil>rat_of_nat n / rat_of_int b\<rceil> = \<lceil>rat_of_int (int n) / rat_of_int b\<rceil>" by simp
  also have "\<dots> = - (- int n div b)" by (rule ceiling_divide_eq_div)
  also have "\<dots> = int n div b + (if int n mod b \<noteq> 0 then 1 else 0)"
    using b by (simp add: zdiv_zminus1_eq_if)
  finally show ?thesis using num_chunks_code[OF b, of n] by simp
qed

lemma iloc_chunk: "0 < b \<Longrightarrow> iloc df (int k * b) (int k * b + b) = chunk df b k"
proof -
  assume b: "0 < b"
  define c where "c = nat b"
  have c: "b = int c" "0 < c" using b by (simp_all add: c_def)
  have "int k * b = int (k * c)" "int k * b + b = int (k * c + c)"
    using c by simp_all
  then have 1: "slice_bound (length (rows df)) (int k * b) = min (length (rows df)) (k * c)"
    and 2: "slice_bound (length (rows df)) (int k * b + b) = min (length (rows df)) (k * c + c)"
    unfolding slice_bound_def by (simp_all only: nat_int of_nat_less_0_iff if_False)
  show ?thesis
    unfolding iloc_def chunk_def Let_def 1 2 c_def[symmetric]
    by (cases "k * c \<le> length (rows df)") (auto simp: min_def)
qed

lemma load_batches_ok:
  "0 < b \<Longrightarrow>
   write_chunks X t e (db s) (map (\<lambda>k. (chunk df b k, chunk_mode mode k)) [j..<num_chunks (length (rows df)) b]) = Inr d \<Longrightarrow>
   \<exists>s'. load_batches X df t mode e b tb (int j * b) s = (None, s') \<and> db s' = d \<and>
        sql_calls s' = sql_calls s @ map (\<lambda>k. (t, chunk df b k, chunk_mode mode k)) [j..<num_chunks (length (rows df)) b] \<and>
        config s' = config s \<and> engine s' = engine s"
proof (induction "num_chunks (length (rows df)) b - j" arbitrary: j s)
  case 0
  then have "\<not> j < num_chunks (length (rows df)) b" by simp
  then have "\<not> j * nat b < length (rows df)" using lt_num_chunks[OF 0(2)] by simp
  then have "\<not> int j * b < int (length (rows df))" using 0(2)
    by (metis nat_int nat_mult_distrib of_nat_0_le_iff zless_nat_conj nat_less_iff mult_nonneg_nonneg less_imp_le)
  then show ?case using 0 by (subst load_batches.simps) simp
next
  case (Suc m)
  let ?M = "num_chunks (length (rows df)) b"
  have jm: "j < ?M" using Suc(2) by simp
  then have "j * nat b < length (rows df)" using lt_num_chunks[OF Suc(3)] by simp
  then have lt: "int j * b < int (length (rows df))" using Suc(3)
    by (metis int_nat_eq less_imp_le of_nat_less_iff of_nat_mult)
  have upt: "[j..<?M] = j # [Suc j..<?M]" using jm by (simp add: upt_conv_Cons)
  have i0: "(int j * b = 0) = (j = 0)" using Suc(3) by simp
  let ?s1 = "s\<lparr>sql_calls := sql_calls s @ [(t, chunk df b j, chunk_mode mode j)]\<rparr>"
  from Suc(4) obtain d1 where d1: "to_sql X (db s) (chunk df b j) t e (chunk_mode mode j) = Inr d1"
    and rest: "write_chunks X t e d1 (map (\<lambda>k. (chunk df b k, chunk_mode mode k)) [Suc j..<?M]) = Inr d"
    unfolding upt by (auto split: sum.splits)
  let ?s2 = "info (LoadedBatch (int j * b div b + 1) tb) (?s1\<lparr>db := d1\<rparr>)"
  have "m = ?M - Suc j" using Suc(2) by simp
  moreover have "write_chunks X t e (db ?s2) (map (\<lambda>k. (chunk df b k, chunk_mode mode k)) [Suc j..<?M]) = Inr d"
    using rest by (simp add: info_def)
  ultimately obtain s' where s': "load_batches X df t mode e b tb (int (Suc j) * b) ?s2 = (None, s')"
      "db s' = d" "sql_calls s' = sql_calls ?s2 @ map (\<lambda>k. (t, chunk df b k, chunk_mode mode k)) [Suc j..<?M]"
      "config s' = config ?s2" "engine s' = engine ?s2"
    using Suc(1)[of "Suc j" ?s2] Suc(3) by blast
  have e: "int (Suc j) * b = int j * b + b" by (simp add: algebra_simps)
  have step: "load_batches X df t mode e b tb (int j * b) s = load_batches X df t mode e b tb (int (Suc j) * b) ?s2"
    unfolding e using lt Suc(3) d1
    by (subst load_batches.simps) (simp add: iloc_chunk i0 chunk_mode_def Let_def)
  show ?case using s' step unfolding upt by (simp add: info_def)
qed

lemma load_batches_fail:
  "0 < b \<Longrightarrow> j + k < num_chunks (length (rows df)) b \<Longrightarrow>
   write_chunks X t e (db s) (map (\<lambda>k. (chunk df b k, chunk_mode mode k)) [j..<j + k]) = Inr d \<Longrightarrow>
   to_sql X d (chunk df b (j + k)) t e (chunk_mode mode (j + k)) = Inl x \<Longrightarrow>
   \<exists>s'. load_batches X df t mode e b tb (int j * b) s = (Some x, s') \<and> db s' = d \<and>
        sql_calls s' = sql_calls s @ map (\<lambda>k. (t, chunk df b k, chunk_mode mode k)) [j..<Suc (j + k)] \<and>
        config s' = config s \<and> engine s' = engine s"
proof (induction k arbitrary: j s)
  case 0
  then have "j * nat b < length (rows df)" using lt_num_chunks[of b j] by simp
  then have lt: "int j * b < int (length (rows df))" using 0(1)
    by (metis int_nat_eq less_imp_le of_nat_less_iff of_nat_mult)
  have i0: "(int j * b = 0) = (j = 0)" using 0(1) by simp
  have d: "db s = d" using 0(3) by simp
  show ?case using lt 0(1) 0(4) d
    by (subst load_batches.simps) (simp add: iloc_chunk i0 chunk_mode_def Let_def)
next
  case (Suc k)
  let ?M = "num_chunks (length (rows df)) b"
  have "j < ?M" using Suc(3) by simp
  then have "j * nat b < length (rows df)" using lt_num_chunks[OF Suc(2)] by simp
  then have lt: "int j * b < int (length (rows df))" using Suc(2)
    by (metis int_nat_eq less_imp_le of_nat_less_iff of_nat_mult)
  have upt: "[j..<j + Suc k] = j # [Suc j..<Suc j + k]" by (simp add: upt_conv_Cons)
  have i0: "(int j * b = 0) = (j = 0)" using Suc(2) by simp
  let ?s1 = "s\<lparr>sql_calls := sql_calls s @ [(t, chunk df b j, chunk_mode mode j)]\<rparr>"
  from Suc(4) obtain d1 where d1: "to_sql X (db s) (chunk df b j) t e (chunk_mode mode j) = Inr d1"
    and rest: "write_chunks X t e d1 (map (\<lambda>k. (chunk df b k, chunk_mode mode k)) [Suc j..<Suc j + k]) = Inr d"
    unfolding upt by (auto split: sum.splits)
  let ?s2 = "info (LoadedBatch (int j * b div b + 1) tb) (?s1\<lparr>db := d1\<rparr>)"
  have "write_chunks X t e (db ?s2) (map (\<lambda>k. (chunk df b k, chunk_mode mode k)) [Suc j..<Suc j + k]) = Inr d"
    using rest by (simp add: info_def)
  moreover have "Suc j + k < ?M" using Suc(3) by simp
  moreover have "to_sql X d (chunk df b (Suc j + k)) t e (chunk_mode mode (Suc j + k)) = Inl x"
    using Suc(5) by simp
  ultimately obtain s' where s': "load_batches X df t mode e b tb (int (Suc j) * b) ?s2 = (Some x, s')"
      "db s' = d" "sql_calls s' = sql_calls ?s2 @ map (\<lambda>k. (t, chunk df b k, chunk_mode mode k)) [Suc j..<Suc (Suc j + k)]"
      "config s' = config ?s2" "engine s' = engine ?s2"
    using Suc(1)[of "Suc j" ?s2] Suc(2) by blast
  have e: "int (Suc j) * b = int j * b + b" by (simp add: algebra_simps)
  have step: "load_batches X df t mode e b tb (int j * b) s = load_batches X df t mode e b tb (int (Suc j) * b) ?s2"
    unfolding e using lt Suc(2) d1
    by (subst load_batches.simps) (simp add: iloc_chunk i0 chunk_mode_def Let_def)
  have upt2: "[j..<Suc (j + Suc k)] = j # [Suc j..<Suc (Suc j + k)]" by (simp add: upt_conv_Cons)
  show ?case using s' step unfolding upt2 by (simp add: info_def)
qed

lemma concat_chunks_take:
  "concat (map (\<lambda>k. take c (drop (k * c) xs)) [0..<m]) = take (m * c) xs"
proof (induction m)
  case 0
  show ?case by simp
next
  case (Suc m)
  have "take (m * c) xs @ take c (drop (m * c) xs) = take (m * c + c) xs"
    by (simp add: take_add)
  then show ?case using Suc by (simp add: add.commute)
qed

lemma batch_plan_concat:
  "0 < b \<Longrightarrow> concat (map (\<lambda>p. rows (fst p)) (batch_plan df mode b)) = rows df"
proof -
  assume b: "0 < b"
  let ?M = "num_chunks (length (rows df)) b"
  have "\<not> ?M < ?M" by simp
  then have "\<not> ?M * nat b < length (rows df)"
    using lt_num_chunks[OF b, of ?M "length (rows df)"] by blast
  then have "length (rows df) \<le> ?M * nat b" by simp
  then have "take (?M * nat b) (rows df) = rows df" by simp
  moreover have "map (\<lambda>p. rows (fst p)) (batch_plan df mode b)
      = map (\<lambda>k. take (nat b) (drop (k * nat b) (rows df))) [0..<?M]"
    by (simp add: batch_plan_def chunk_def comp_def)
  ultimately show ?thesis by (simp add: concat_chunks_take)
qed

lemma chunk_length:
  "0 < b \<Longrightarrow> k < num_chunks (length (rows df)) b \<Longrightarrow>
     0 < length (rows (chunk df b k)) \<and> int (length (rows (chunk df b k))) \<le> b"
  using lt_num_chunks[of b k "length (rows df)"] by (auto simp: chunk_def)

lemma demo_plan_3_2:
  "batch_plan (demo_frame [1, 2, 3]) Replace 2 =
     [(demo_frame [1, 2], Replace), (demo_frame [3], Append)]"
  by (simp add: batch_plan_def num_chunks_def chunk_def chunk_mode_def demo_frame_def upt_conv_Cons)

lemma demo_plan_empty: "batch_plan (demo_frame []) Replace 2 = []"
  by (simp add: batch_plan_def num_chunks_def demo_frame_def)

lemma demo_plan_4_1:
  "batch_plan (demo_frame [1, 2, 3, 4]) Replace 1 =
     [(demo_frame [1], Replace), (demo_frame [2], Append), (demo_frame [3], Append),
      (demo_frame [4], Append)]"
  by (simp add: batch_plan_def num_chunks_def chunk_def chunk_mode_def demo_frame_def upt_conv_Cons)

text \<open>
  Claim C10.  When \<open>load\<close> is called while no engine has been created, it issues no
  \<open>to_sql\<close> call, leaves the destination as it was, and returns \<open>False\<close> (the
  \<open>RuntimeError\<close> is caught inside \<open>load\<close>; the caller gets a value, not an exception).
\<close>

theorem load_without_engine:
  "engine s = None \<Longrightarrow>
     fst (load X df table_name mode s) = False \<and>
     sql_calls (snd (load X df table_name mode s)) = sql_calls s \<and>
     db (snd (load X df table_name mode s)) = db s"
  by (simp add: load_def info_def error_def)

theorem load_without_engine_witness:
  "engine (demo_pipeline 2 None) = None \<and>
   fst (load (demo_externals 10) (demo_frame [1, 2, 3]) ''fact_transactions'' Append
          (demo_pipeline 2 None)) = False \<and>
   sql_calls (snd (load (demo_externals 10) (demo_frame [1, 2, 3]) ''fact_transactions'' Append
          (demo_pipeline 2 None))) = []"
  using load_without_engine [of "demo_pipeline 2 None" "demo_externals 10"
      "demo_frame [1, 2, 3]" "''fact_transactions''" Append]
  by (simp add: demo_pipeline_def)

text \<open>
  Claim C1.  With an engine and a batch size \<open>b > 0\<close>, if every write of the plan
  succeeds then \<open>load\<close> returns \<open>True\<close> and the \<open>to_sql\<close> calls it issued are exactly
  the plan, in order: \<open>ceil(n / b)\<close> chunks that are consecutive (their concatenation is
  the table), non-empty and of at most \<open>b\<close> rows, the first in the caller's mode and
  each later one in append mode.  For the empty table the plan is empty: no call is
  issued and the result is \<open>True\<close>.
\<close>

theorem load_batching:
  "engine s = Some e \<Longrightarrow> 0 < batch_size (config s) \<Longrightarrow>
   write_chunks X t e (db s) (batch_plan df mode (batch_size (config s))) = Inr d \<Longrightarrow>
     fst (load X df t mode s) = True \<and>
     sql_calls (snd (load X df t mode s)) =
       sql_calls s @ map (\<lambda>(c, m). (t, c, m)) (batch_plan df mode (batch_size (config s))) \<and>
     db (snd (load X df t mode s)) = d \<and>
     int (length (batch_plan df mode (batch_size (config s)))) =
       \<lceil>rat_of_nat (length (rows df)) / rat_of_int (batch_size (config s))\<rceil> \<and>
     concat (map (\<lambda>p. rows (fst p)) (batch_plan df mode (batch_size (config s)))) = rows df \<and>
     (\<forall>k < length (batch_plan df mode (batch_size (config s))).
        snd (batch_plan df mode (batch_size (config s)) ! k) = (if k = 0 then mode else Append) \<and>
        0 < length (rows (fst (batch_plan df mode (batch_size (config s)) ! k))) \<and>
        int (length (rows (fst (batch_plan df mode (batch_size (config s)) ! k)))) \<le> batch_size (config s))"
proof -
  assume e: "engine s = Some e" and b: "0 < batch_size (config s)"
    and w: "write_chunks X t e (db s) (batch_plan df mode (batch_size (config s))) = Inr d"
  let ?b = "batch_size (config s)"
  let ?M = "num_chunks (length (rows df)) ?b"
  let ?s0 = "info (LoadStart t) s"
  let ?tb = "int (length (rows df)) div ?b + (if int (length (rows df)) mod ?b \<noteq> 0 then 1 else 0)"
  have "write_chunks X t e (db ?s0) (map (\<lambda>k. (chunk df ?b k, chunk_mode mode k)) [0..<?M]) = Inr d"
    using w by (simp add: batch_plan_def info_def)
  from load_batches_ok[OF b this, of ?tb]
  obtain s' where s': "load_batches X df t mode e ?b ?tb 0 ?s0 = (None, s')" "db s' = d"
    "sql_calls s' = sql_calls ?s0 @ map (\<lambda>k. (t, chunk df ?b k, chunk_mode mode k)) [0..<?M]"
    by auto
  have ld: "load X df t mode s = (True, info (LoadComplete (length (rows df)) t) s')"
    using e b s'(1) by (simp add: load_def Let_def info_def)
  have 1: "fst (load X df t mode s) = True" using ld by simp
  have 2: "sql_calls (snd (load X df t mode s)) =
       sql_calls s @ map (\<lambda>(c, m). (t, c, m)) (batch_plan df mode ?b)"
    using ld s'(3) by (simp add: info_def batch_plan_def comp_def)
  have 3: "db (snd (load X df t mode s)) = d" using ld s'(2) by (simp add: info_def)
  have 4: "int (length (batch_plan df mode ?b)) = \<lceil>rat_of_nat (length (rows df)) / rat_of_int ?b\<rceil>"
    using num_chunks_ceiling[OF b, of "length (rows df)"] by (simp add: batch_plan_def)
  have 5: "concat (map (\<lambda>p. rows (fst p)) (batch_plan df mode ?b)) = rows df"
    by (rule batch_plan_concat[OF b])
  have 6: "\<forall>k < length (batch_plan df mode ?b).
        snd (batch_plan df mode ?b ! k) = (if k = 0 then mode else Append) \<and>
        0 < length (rows (fst (batch_plan df mode ?b ! k))) \<and>
        int (length (rows (fst (batch_plan df mode ?b ! k)))) \<le> ?b"
    using chunk_length[OF b, of _ df] by (simp add: batch_plan_def chunk_mode_def)
  show ?thesis using 1 2 3 4 5 6 by blast
qed

theorem load_batching_witness:
  "fst (load (demo_externals 10) (demo_frame [1, 2, 3]) ''fact_transactions'' Replace
          (demo_pipeline 2 (Some (Engine ''pg'')))) = True \<and>
   sql_calls (snd (load (demo_externals 10) (demo_frame [1, 2, 3]) ''fact_transactions'' Replace
          (demo_pipeline 2 (Some (Engine ''pg''))))) =
     [(''fact_transactions'', demo_frame [1, 2], Replace),
      (''fact_transactions'', demo_frame [3], Append)] \<and>
   db (snd (load (demo_externals 10) (demo_frame [1, 2, 3]) ''fact_transactions'' Replace
          (demo_pipeline 2 (Some (Engine ''pg''))))) =
     [(''fact_transactions'', map demo_row [1, 2, 3])] \<and>
   fst (load (demo_externals 10) (demo_frame []) ''fact_transactions'' Replace
          (demo_pipeline 2 (Some (Engine ''pg'')))) = True \<and>
   sql_calls (snd (load (demo_externals 10) (demo_frame []) ''fact_transactions'' Replace
          (demo_pipeline 2 (Some (Engine ''pg''))))) = []"
proof -
  let ?s = "demo_pipeline 2 (Some (Engine ''pg''))"
  have e: "engine ?s = Some (Engine ''pg'')" and b: "0 < batch_size (config ?s)"
    and b2: "batch_size (config ?s) = 2" and d0: "db ?s = []" and c0: "sql_calls ?s = []"
    by (simp_all add: demo_pipeline_def demo_config_def)
  have w: "write_chunks (demo_externals 10) ''fact_transactions'' (Engine ''pg'') (db ?s)
      (batch_plan (demo_frame [1, 2, 3]) Replace (batch_size (config ?s))) =
        Inr [(''fact_transactions'', map demo_row [1, 2, 3])]"
    unfolding b2 d0 demo_plan_3_2
    by (simp add: demo_externals_def mem_to_sql_def mem_store_def demo_frame_def)
  have w0: "write_chunks (demo_externals 10) ''fact_transactions'' (Engine ''pg'') (db ?s)
      (batch_plan (demo_frame []) Replace (batch_size (config ?s))) = Inr []"
    unfolding b2 d0 demo_plan_empty by simp
  show ?thesis
    using load_batching [OF e b w] load_batching [OF e b w0]
    unfolding b2 c0 demo_plan_3_2 demo_plan_empty by simp
qed

text \<open>
  Claim C2.  If the writes of the first \<open>k\<close> chunks of the plan succeed and the write of
  the next chunk raises, then \<open>load\<close> returns \<open>False\<close>, the calls it issued are those
  \<open>k\<close> writes and the failing one (no later chunk is attempted), and the destination
  is the one the \<open>k\<close> successful writes left: nothing is rolled back.
\<close>

theorem load_partial_failure:
  "engine s = Some e \<Longrightarrow> 0 < batch_size (config s) \<Longrightarrow>
   k < length (batch_plan df mode (batch_size (config s))) \<Longrightarrow>
   write_chunks X t e (db s) (take k (batch_plan df mode (batch_size (config s)))) = Inr d \<Longrightarrow>
   to_sql X d (fst (batch_plan df mode (batch_size (config s)) ! k)) t e
       (snd (batch_plan df mode (batch_size (config s)) ! k)) = Inl x \<Longrightarrow>
     fst (load X df t mode s) = False \<and>
     sql_calls (snd (load X df t mode s)) =
       sql_calls s @ map (\<lambda>(c, m). (t, c, m)) (take (Suc k) (batch_plan df mode (batch_size (config s)))) \<and>
     db (snd (load X df t mode s)) = d"
proof -
  let ?b = "batch_size (config s)"
  let ?M = "num_chunks (length (rows df)) ?b"
  let ?s0 = "info (LoadStart t) s"
  let ?tb = "int (length (rows df)) div ?b + (if int (length (rows df)) mod ?b \<noteq> 0 then 1 else 0)"
  assume e: "engine s = Some e" and b: "0 < ?b"
    and k: "k < length (batch_plan df mode ?b)"
    and w: "write_chunks X t e (db s) (take k (batch_plan df mode ?b)) = Inr d"
    and f: "to_sql X d (fst (batch_plan df mode ?b ! k)) t e (snd (batch_plan df mode ?b ! k)) = Inl x"
  have kM: "0 + k < ?M" using k by (simp add: batch_plan_def)
  have tk: "take k (batch_plan df mode ?b) = map (\<lambda>k. (chunk df ?b k, chunk_mode mode k)) [0..<0 + k]"
    using kM by (simp add: batch_plan_def take_map)
  have tk': "take (Suc k) (batch_plan df mode ?b) = map (\<lambda>k. (chunk df ?b k, chunk_mode mode k)) [0..<Suc (0 + k)]"
    using kM by (simp add: batch_plan_def take_map del: upt_Suc)
  have w': "write_chunks X t e (db ?s0) (map (\<lambda>k. (chunk df ?b k, chunk_mode mode k)) [0..<0 + k]) = Inr d"
    using w unfolding tk by (simp add: info_def)
  have f': "to_sql X d (chunk df ?b (0 + k)) t e (chunk_mode mode (0 + k)) = Inl x"
    using f kM by (simp add: batch_plan_def)
  from load_batches_fail[OF b kM w' f', of ?tb]
  obtain s' where s': "load_batches X df t mode e ?b ?tb 0 ?s0 = (Some x, s')" "db s' = d"
    "sql_calls s' = sql_calls ?s0 @ map (\<lambda>k. (t, chunk df ?b k, chunk_mode mode k)) [0..<Suc (0 + k)]"
    by auto
  have ld: "load X df t mode s = (False, error (LoadError x) s')"
    using e b s'(1) by (simp add: load_def Let_def info_def)
  show ?thesis using ld s'(2) s'(3) unfolding tk'
    by (simp add: info_def error_def comp_def del: upt_Suc)
qed

theorem load_partial_failure_witness:
  "fst (load (demo_externals 2) (demo_frame [1, 2, 3, 4]) ''fact_transactions'' Replace
          (demo_pipeline 1 (Some (Engine ''pg'')))) = False \<and>
   sql_calls (snd (load (demo_externals 2) (demo_frame [1, 2, 3, 4]) ''fact_transactions'' Replace
          (demo_pipeline 1 (Some (Engine ''pg''))))) =
     [(''fact_transactions'', demo_frame [1], Replace),
      (''fact_transactions'', demo_frame [2], Append),
      (''fact_transactions'', demo_frame [3], Append)] \<and>
   db (snd (load (demo_externals 2) (demo_frame [1, 2, 3, 4]) ''fact_transactions'' Replace
          (demo_pipeline 1 (Some (Engine ''pg''))))) =
     [(''fact_transactions'', map demo_row [1, 2])]"
proof -
  let ?s = "demo_pipeline 1 (Some (Engine ''pg''))"
  have e: "engine ?s = Some (Engine ''pg'')" and b: "0 < batch_size (config ?s)"
    and b1: "batch_size (config ?s) = 1" and d0: "db ?s = []" and c0: "sql_calls ?s = []"
    by (simp_all add: demo_pipeline_def demo_config_def)
  have k: "2 < length (batch_plan (demo_frame [1, 2, 3, 4]) Replace (batch_size (config ?s)))"
    unfolding b1 demo_plan_4_1 by simp
  have w: "write_chunks (demo_externals 2) ''fact_transactions'' (Engine ''pg'') (db ?s)
      (take 2 (batch_plan (demo_frame [1, 2, 3, 4]) Replace (batch_size (config ?s)))) =
        Inr [(''fact_transactions'', map demo_row [1, 2])]"
    unfolding b1 d0 demo_plan_4_1
    by (simp add: demo_externals_def mem_to_sql_def mem_store_def demo_frame_def)
  have f: "to_sql (demo_externals 2) [(''fact_transactions'', map demo_row [1, 2])]
      (fst (batch_plan (demo_frame [1, 2, 3, 4]) Replace (batch_size (config ?s)) ! 2))
      ''fact_transactions'' (Engine ''pg'')
      (snd (batch_plan (demo_frame [1, 2, 3, 4]) Replace (batch_size (config ?s)) ! 2)) =
        Inl (ExternalError ''destination full'')"
    unfolding b1 demo_plan_4_1
    by (simp add: demo_externals_def mem_to_sql_def mem_store_def demo_frame_def)
  show ?thesis
    using load_partial_failure [OF e b k w f]
    unfolding b1 c0 demo_plan_4_1 by (simp add: numeral_2_eq_2)
qed

section \<open>Properties of extract and run\<close>

text \<open>
  Claim C7.  For a source path that ends neither in \<open>.csv\<close> nor in \<open>.xlsx\<close>, \<open>extract\<close>
  raises the unsupported-format \<open>ValueError\<close>, and \<open>run\<close> returns \<open>False\<close>: it issues no
  \<open>to_sql\<close> call, leaves the destination untouched, and logs neither the start of
  the transform stage nor the start of the load stage.
\<close>

theorem unsupported_format_aborts:
  "\<not> suffix ''.csv'' p \<Longrightarrow> \<not> suffix ''.xlsx'' p \<Longrightarrow>
     fst (extract_df X p s) = Inl (ValueError (''Unsupported file format: '' @ p)) \<and>
     fst (run X p t s) = False \<and>
     sql_calls (snd (run X p t s)) = sql_calls s \<and>
     db (snd (run X p t s)) = db s \<and>
     (\<exists>es. log (snd (run X p t s)) = log s @ es \<and>
           Info TransformStart \<notin> set es \<and> Info (LoadStart t) \<notin> set es)"
  by (cases "create_engine X (''postgresql://'' @ db_user (config s) @ '':'' @
        db_password (config s) @ ''@'' @ db_host (config s) @ '':'' @ db_port (config s) @
        ''/'' @ db_name (config s))")
     (simp_all add: run_def extract_df_def connect_database_def info_def error_def Let_def)

theorem unsupported_format_aborts_witness:
  "\<not> suffix ''.csv'' ''data.json'' \<and> \<not> suffix ''.xlsx'' ''data.json'' \<and>
   fst (extract_df (demo_externals 10) ''data.json'' (demo_pipeline 2 None)) =
     Inl (ValueError ''Unsupported file format: data.json'') \<and>
   fst (run (demo_externals 10) ''data.json'' ''fact_transactions'' (demo_pipeline 2 None)) = False \<and>
   sql_calls (snd (run (demo_externals 10) ''data.json'' ''fact_transactions''
     (demo_pipeline 2 None))) = []"
proof -
  have a: "\<not> suffix ''.csv'' ''data.json''" and b: "\<not> suffix ''.xlsx'' ''data.json''"
    by (simp_all add: suffix_Cons)
  show ?thesis
    using a b unsupported_format_aborts [OF a b, of "demo_externals 10" "demo_pipeline 2 None"
        "''fact_transactions''"]
    by (simp add: demo_pipeline_def)
qed

section \<open>Properties of duplicate detection\<close>

lemma length_duplicated_from: "length (duplicated_from cols seen rs) = length rs"
  by (induction rs arbitrary: seen) simp_all

lemma length_keep_unmarked:
  "length ds = length rs \<Longrightarrow>
     length (filter (\<lambda>(r, d). \<not> d) (zip rs ds)) + length (filter (\<lambda>d. d) ds) = length rs"
proof (induction rs arbitrary: ds)
  case Nil
  then show ?case by simp
next
  case (Cons r rs)
  then obtain d ds' where "ds = d # ds'" by (cases ds) auto
  with Cons show ?case by (cases d) auto
qed

text \<open>
  Claim C9.  The \<open>duplicate_records\<close> count of \<open>validate_data\<close> is the row count of the
  table minus the row count after the duplicate removal of \<open>transform\<close>; it is the
  number that \<open>transform\<close> logs as removed.  Both come from the same \<open>duplicated\<close> marks.
\<close>

theorem duplicate_count_consistent:
  "duplicate_records (validate_data df) =
     length (rows df) - length (rows (drop_duplicates df)) \<and>
   Info (RemovedDuplicates (duplicate_records (validate_data df)))
     \<in> set (log (snd (transform X df s)))"
proof -
  have 1: "duplicate_records (validate_data df) =
      length (rows df) - length (rows (drop_duplicates df))"
  proof (cases "empty_frame df")
    case True
    then show ?thesis by (simp add: validate_data_def duplicated_def drop_duplicates_def)
  next
    case False
    have "length (filter (\<lambda>(r, d). \<not> d)
            (zip (rows df) (duplicated_from (columns df) [] (rows df))))
        + length (filter (\<lambda>d. d) (duplicated_from (columns df) [] (rows df)))
        = length (rows df)"
      by (rule length_keep_unmarked) (simp add: length_duplicated_from)
    then show ?thesis using False
      by (simp add: validate_data_def duplicated_def drop_duplicates_def)
  qed
  have "Info (RemovedDuplicates (length (rows df) - length (rows (drop_duplicates df))))
      \<in> set (log (snd (transform X df s)))"
    by (simp add: transform_def Let_def info_def error_def split: sum.splits)
  then show ?thesis using 1 by simp
qed

theorem duplicate_count_consistent_witness:
  "duplicate_records (validate_data (demo_frame [1, 1, 2])) = 1 \<and>
   length (rows (demo_frame [1, 1, 2])) - length (rows (drop_duplicates (demo_frame [1, 1, 2]))) = 1"
proof -
  have "duplicate_records (validate_data (demo_frame [1, 1, 2])) = 1"
    by (simp add: validate_data_def duplicated_def empty_frame_def demo_frame_def demo_row_def
        row_eq_def rows_agree_def cell_eq_def value_eq_def isnull_def cell_of_def)
  then show ?thesis
    using duplicate_count_consistent [of "demo_frame [1, 1, 2]" "demo_externals 10"
        "demo_pipeline 2 None"]
    by simp
qed

lemma cell_eq_refl: "cell_eq s a a"
  by (simp add: cell_eq_def value_eq_def)

lemma cell_eq_trans: "cell_eq s a b \<Longrightarrow> cell_eq s b c \<Longrightarrow> cell_eq s a c"
  by (auto simp: cell_eq_def value_eq_def isnull_def)

lemma rows_agree_refl: "rows_agree s cs r r"
  by (simp add: rows_agree_def list_all_iff cell_eq_refl)

lemma rows_agree_trans: "rows_agree s cs a b \<Longrightarrow> rows_agree s cs b c \<Longrightarrow> rows_agree s cs a c"
  unfolding rows_agree_def list_all_iff by (blast intro: cell_eq_trans)

lemma row_eq_refl: "row_eq cols r r"
  by (simp add: row_eq_def rows_agree_refl)

lemma row_eq_trans: "row_eq cols a b \<Longrightarrow> row_eq cols b c \<Longrightarrow> row_eq cols a c"
  unfolding row_eq_def by (rule rows_agree_trans)

lemma duplicated_from_nth:
  "i < length rs \<Longrightarrow>
     duplicated_from cols seen rs ! i = (\<exists>s \<in> set seen \<union> set (take i rs). row_eq cols s (rs ! i))"
proof (induction rs arbitrary: seen i)
  case Nil
  then show ?case by simp
next
  case (Cons r rs)
  show ?case
  proof (cases i)
    case 0
    then show ?thesis by (simp add: list_ex_iff)
  next
    case (Suc k)
    with Cons.prems have "k < length rs" by simp
    from Cons.IH[OF this, of "seen @ [r]"] Suc show ?thesis by auto
  qed
qed

lemma in_set_take_conv: "i \<le> length rs \<Longrightarrow> (\<exists>s \<in> set (take i rs). P s) = (\<exists>j<i. P (rs ! j))"
proof
  assume i: "i \<le> length rs" and "\<exists>s \<in> set (take i rs). P s"
  then obtain s where "s \<in> set (take i rs)" "P s" by blast
  then obtain j where "j < length (take i rs)" "take i rs ! j = s" by (auto simp: in_set_conv_nth)
  with i \<open>P s\<close> show "\<exists>j<i. P (rs ! j)" by auto
next
  assume i: "i \<le> length rs" and "\<exists>j<i. P (rs ! j)"
  then obtain j where j: "j < i" "P (rs ! j)" by blast
  with i have "take i rs ! j = rs ! j" "j < length (take i rs)" by simp_all
  then have "rs ! j \<in> set (take i rs)" by (metis nth_mem)
  with j show "\<exists>s \<in> set (take i rs). P s" by blast
qed

lemma keep_unmarked_index:
  "length ds = length rs \<Longrightarrow>
     map fst (filter (\<lambda>(r, d). \<not> d) (zip rs ds)) =
     map (\<lambda>i. rs ! i) (filter (\<lambda>i. \<not> ds ! i) [0..<length rs])"
proof -
  assume l: "length ds = length rs"
  have z: "zip rs ds = map (\<lambda>i. (rs ! i, ds ! i)) [0..<length rs]"
    using l by (intro nth_equalityI) simp_all
  show ?thesis unfolding z by (simp add: filter_map comp_def)
qed

text \<open>
  Claim C5 (amended).  For a table with at least one column, the duplicate removal that
  opens \<open>transform\<close> keeps the columns and returns exactly the rows that no earlier row
  equals, in their original order: the result is a subsequence of the input, no two of
  its rows are equal on every column, and every input row is equal to some kept row.
  Rows are compared as pandas compares them (\<open>row_eq\<close>).
\<close>

theorem drop_duplicates_first_occurrences:
  "columns df \<noteq> [] \<Longrightarrow>
     columns (drop_duplicates df) = columns df \<and>
     rows (drop_duplicates df) =
       map (\<lambda>i. rows df ! i)
         (filter (\<lambda>i. \<forall>j<i. \<not> row_eq (columns df) (rows df ! j) (rows df ! i))
            [0..<length (rows df)]) \<and>
     subseq (rows (drop_duplicates df)) (rows df) \<and>
     sorted_wrt (\<lambda>a b. \<not> row_eq (columns df) a b) (rows (drop_duplicates df)) \<and>
     (\<forall>r \<in> set (rows df). \<exists>k \<in> set (rows (drop_duplicates df)). row_eq (columns df) k r)"
proof -
  assume c: "columns df \<noteq> []"
  let ?rs = "rows df" and ?cols = "columns df"
  let ?Q = "\<lambda>i. \<forall>j<i. \<not> row_eq ?cols (?rs ! j) (?rs ! i)"
  let ?is = "filter ?Q [0..<length ?rs]"
  have 1: "columns (drop_duplicates df) = ?cols" by (simp add: drop_duplicates_def)
  have 2: "rows (drop_duplicates df) = map (\<lambda>i. ?rs ! i) ?is"
  proof (cases "?rs = []")
    case True
    then show ?thesis by (simp add: drop_duplicates_def empty_frame_def)
  next
    case False
    let ?ds = "duplicated_from ?cols [] ?rs"
    have "rows (drop_duplicates df) = map fst (filter (\<lambda>(r, d). \<not> d) (zip ?rs ?ds))"
      using c False by (simp add: drop_duplicates_def empty_frame_def duplicated_def)
    also have "\<dots> = map (\<lambda>i. ?rs ! i) (filter (\<lambda>i. \<not> ?ds ! i) [0..<length ?rs])"
      by (rule keep_unmarked_index) (simp add: length_duplicated_from)
    also have "filter (\<lambda>i. \<not> ?ds ! i) [0..<length ?rs] = ?is"
      by (rule filter_cong) (simp_all add: duplicated_from_nth in_set_take_conv)
    finally show ?thesis .
  qed
  have "subseq (map (\<lambda>i. ?rs ! i) ?is) (map (\<lambda>i. ?rs ! i) [0..<length ?rs])"
    by (rule subseq_map) simp
  then have 3: "subseq (rows (drop_duplicates df)) ?rs" unfolding 2 by (simp add: map_nth)
  have "sorted_wrt (<) ?is" by (rule sorted_wrt_filter) simp
  then have "sorted_wrt (\<lambda>i k. \<not> row_eq ?cols (?rs ! i) (?rs ! k)) ?is"
    by (rule sorted_wrt_mono_rel[rotated]) auto
  then have 4: "sorted_wrt (\<lambda>a b. \<not> row_eq ?cols a b) (rows (drop_duplicates df))"
    unfolding 2 by (simp add: sorted_wrt_map)
  have 5: "\<forall>r \<in> set ?rs. \<exists>k \<in> set (rows (drop_duplicates df)). row_eq ?cols k r"
  proof
    fix r assume "r \<in> set ?rs"
    then obtain i where i: "i < length ?rs" "?rs ! i = r" by (auto simp: in_set_conv_nth)
    define m where "m = (LEAST j. row_eq ?cols (?rs ! j) r)"
    have e: "row_eq ?cols (?rs ! i) r" using i by (simp add: row_eq_refl)
    then have m: "row_eq ?cols (?rs ! m) r" unfolding m_def by (rule LeastI)
    have mi: "m \<le> i" unfolding m_def using e by (rule Least_le)
    have "?Q m"
    proof (intro allI impI notI)
      fix j assume "j < m" "row_eq ?cols (?rs ! j) (?rs ! m)"
      then have "row_eq ?cols (?rs ! j) r" using m by (blast intro: row_eq_trans)
      then have "m \<le> j" unfolding m_def by (rule Least_le)
      with \<open>j < m\<close> show False by simp
    qed
    then have "m \<in> set ?is" using mi i by simp
    then have "?rs ! m \<in> set (rows (drop_duplicates df))" unfolding 2 by simp
    with m show "\<exists>k \<in> set (rows (drop_duplicates df)). row_eq ?cols k r" by blast
  qed
  show ?thesis using 1 2 3 4 5 by blast
qed

theorem drop_duplicates_first_occurrences_witness:
  "columns (demo_frame [1, 1, 2]) \<noteq> [] \<and>
   rows (drop_duplicates (demo_frame [1, 1, 2])) = [demo_row 1, demo_row 2] \<and>
   subseq (rows (drop_duplicates (demo_frame [1, 1, 2]))) (rows (demo_frame [1, 1, 2])) \<and>
   sorted_wrt (\<lambda>a b. \<not> row_eq (columns (demo_frame [1, 1, 2])) a b)
     (rows (drop_duplicates (demo_frame [1, 1, 2])))"
proof -
  have c: "columns (demo_frame [1, 1, 2]) \<noteq> []" by (simp add: demo_frame_def)
  have r: "rows (drop_duplicates (demo_frame [1, 1, 2])) = [demo_row 1, demo_row 2]"
    by (simp add: drop_duplicates_def duplicated_def empty_frame_def demo_frame_def demo_row_def
        row_eq_def rows_agree_def cell_eq_def value_eq_def isnull_def cell_of_def)
  from drop_duplicates_first_occurrences [OF c]
  have "subseq (rows (drop_duplicates (demo_frame [1, 1, 2]))) (rows (demo_frame [1, 1, 2]))"
    and "sorted_wrt (\<lambda>a b. \<not> row_eq (columns (demo_frame [1, 1, 2])) a b)
      (rows (drop_duplicates (demo_frame [1, 1, 2])))"
    by blast+
  with c r show ?thesis by blast
qed

text \<open>
  The claim as stated, for every table, fails on a table that has rows but no column:
  pandas returns an empty frame unchanged, so both of its rows, which are equal on
  every column, are kept.
\<close>

theorem drop_duplicates_no_columns_counterexample:
  "rows (drop_duplicates \<lparr>columns = [], rows = [[], []]\<rparr>) = [[], []] \<and>
   row_eq (columns \<lparr>columns = [], rows = [[], []]\<rparr>) [] []"
  by (simp add: drop_duplicates_def empty_frame_def row_eq_def rows_agree_def)

text \<open>
  In a frame with one column \<open>None\<close> and NaN are different values, so both rows are kept;
  beside a second column they are the same missing value, and the second row is removed.
\<close>

lemma drop_duplicates_null_markers:
  "rows (drop_duplicates \<lparr>columns = [''a''],
      rows = [[(''a'', NoneV)], [(''a'', Missing)]]\<rparr>) =
     [[(''a'', NoneV)], [(''a'', Missing)]] \<and>
   rows (drop_duplicates \<lparr>columns = [''a'', ''b''],
      rows = [[(''a'', NoneV), (''b'', IntV 1)], [(''a'', Missing), (''b'', IntV 1)]]\<rparr>) =
     [[(''a'', NoneV), (''b'', IntV 1)]]"
  by (simp add: drop_duplicates_def duplicated_def empty_frame_def row_eq_def rows_agree_def
      cell_eq_def value_eq_def isnull_def cell_of_def)

section \<open>Properties of transform\<close>


lemma columns_drop_duplicates: "columns (drop_duplicates df) = columns df"
  by (simp add: drop_duplicates_def)

lemma transform_fst: "fst (transform X df s) = transform_result X df"
  by (simp add: transform_def transform_result_def Let_def split: sum.splits)

lemma dropna_Inr:
  "dropna cs df = Inr df2 \<Longrightarrow>
     columns df2 = columns df \<and> set cs \<subseteq> set (columns df) \<and>
     rows df2 = filter (\<lambda>r. \<not> list_ex (\<lambda>c. isnull (cell_of r c)) cs) (rows df)"
  by (auto simp: dropna_def Let_def filter_empty_conv split: if_splits)

lemmas eval_defs = transform_result_def clean_steps_def drop_duplicates_def duplicated_def
  empty_frame_def dropna_def convert_dates_def derive_total_def coerce_numeric_def
  remove_invalid_def keep_positive_def set_column_def get_column_def to_datetime_def
  to_datetime_cell_def mul_columns_def mul_cell_def stamp_column_def to_numeric_def cell_of_def
  isnull_def row_eq_def rows_agree_def cell_eq_def value_eq_def Let_def demo_externals_def
  wrap64_def




lemma cell_of_update: "cell_of (AList.update c v r) c' = (if c' = c then v else cell_of r c')"
  by (simp add: cell_of_def update_conv')

lemma set_column_rows:
  "r' \<in> set (rows (set_column c vs df)) \<Longrightarrow>
     \<exists>i. i < length (rows df) \<and> i < length vs \<and> r' = AList.update c (vs ! i) (rows df ! i)"
  by (auto simp: set_column_def set_zip)

lemma columns_set_column: "set (columns (set_column c vs df)) = insert c (set (columns df))"
  by (auto simp: set_column_def)

lemma columns_set_column_mem: "c \<in> set (columns df) \<Longrightarrow> columns (set_column c vs df) = columns df"
  by (simp add: set_column_def)

lemma map_result_Inr:
  "map_result f xs = Inr ys \<Longrightarrow> length ys = length xs \<and> (\<forall>i<length xs. f (xs ! i) = Inr (ys ! i))"
proof (induction xs arbitrary: ys)
  case Nil
  then show ?case by simp
next
  case (Cons x xs)
  from Cons.prems obtain y ys' where y: "f x = Inr y" and ys': "map_result f xs = Inr ys'"
    and ys: "ys = y # ys'"
    by (auto split: sum.splits)
  from Cons.IH[OF ys'] have l: "length ys' = length xs"
    and n: "\<And>i. i < length xs \<Longrightarrow> f (xs ! i) = Inr (ys' ! i)" by simp_all
  show ?case
  proof (intro conjI allI impI)
    show "length ys = length (x # xs)" using l ys by simp
  next
    fix i assume "i < length (x # xs)"
    then show "f ((x # xs) ! i) = Inr (ys ! i)" using y ys n by (cases i) simp_all
  qed
qed

lemma convert_dates_Inr:
  "convert_dates X df2 = Inr df3 \<Longrightarrow>
     columns df3 = columns df2 \<and>
     (\<forall>r3 \<in> set (rows df3). \<exists>r2 \<in> set (rows df2). \<forall>c. c \<noteq> ''date'' \<longrightarrow> cell_of r3 c = cell_of r2 c)"
proof -
  assume a: "convert_dates X df2 = Inr df3"
  show ?thesis
  proof (cases "''date'' \<in> set (columns df2)")
    case False
    with a show ?thesis by (auto simp: convert_dates_def)
  next
    case True
    with a obtain ds where df3: "df3 = set_column ''date'' ds df2"
      by (auto simp: convert_dates_def split: sum.splits)
    have "\<exists>r2 \<in> set (rows df2). \<forall>c. c \<noteq> ''date'' \<longrightarrow> cell_of r3 c = cell_of r2 c"
      if "r3 \<in> set (rows df3)" for r3
    proof -
      from set_column_rows[OF that[unfolded df3]] obtain i where
        i: "i < length (rows df2)" "r3 = AList.update ''date'' (ds ! i) (rows df2 ! i)" by blast
      then have "rows df2 ! i \<in> set (rows df2)" by simp
      moreover have "\<forall>c. c \<noteq> ''date'' \<longrightarrow> cell_of r3 c = cell_of (rows df2 ! i) c"
        using i(2) by (simp add: cell_of_update)
      ultimately show ?thesis by blast
    qed
    then show ?thesis using True df3 by (simp add: columns_set_column_mem)
  qed
qed

lemma derive_total_columns:
  "derive_total X df3 = Inr df4 \<Longrightarrow> set (columns df3) \<subseteq> set (columns df4)"
  by (auto simp: derive_total_def columns_set_column split: if_splits sum.splits)

lemma num_val_as_float: "num_val (as_float X v) \<noteq> None \<longleftrightarrow> num_val v \<noteq> None"
  by (cases v) simp_all

lemma columns_coerce_numeric: "columns (coerce_numeric X c df) = columns df"
  by (simp add: coerce_numeric_def columns_set_column_mem)

lemma columns_remove_invalid: "columns (remove_invalid c df) = columns df"
  by (simp add: remove_invalid_def keep_positive_def)

lemma rows_remove_invalid: "set (rows (remove_invalid c df)) \<subseteq> set (rows df)"
  by (auto simp: remove_invalid_def keep_positive_def)

lemma rows_remove_invalid_mem:
  "c \<in> set (columns df) \<Longrightarrow> r \<in> set (rows (remove_invalid c df)) \<Longrightarrow> gt_zero (cell_of r c)"
  by (simp add: remove_invalid_def keep_positive_def)

lemma gt_zero_num_val: "gt_zero v = (\<exists>q. num_val v = Some q \<and> 0 < q)"
  by (cases v) simp_all

lemma clean_steps_Inr:
  "clean_steps X df = Inr out \<Longrightarrow>
     \<exists>df2 df3 df4. dropna [''transaction_id'', ''date''] df = Inr df2 \<and>
       convert_dates X df2 = Inr df3 \<and> derive_total X df3 = Inr df4 \<and>
       out = remove_invalid ''price'' (remove_invalid ''quantity''
               (coerce_numeric X ''price'' (coerce_numeric X ''quantity'' df4)))"
  by (auto simp: clean_steps_def split: sum.splits)

lemma demo_transform: "transform_result (demo_externals 10) (demo_frame [1]) = Inr (demo_out_frame [1])"
  by (simp add: eval_defs demo_frame_def demo_row_def demo_out_frame_def demo_out_row_def)

text \<open>
  Claim C4 (amended).  In every table that \<open>transform\<close> returns, each row has a quantity
  that is a number greater than 0 when the input has a quantity column, and a price
  that is a number greater than 0 when the input has a price column.  A missing value
  is not such a number, so rows whose quantity or price did not coerce are not in the
  output.
\<close>

theorem transform_keeps_positive:
  "transform_result X df = Inr out \<Longrightarrow> r \<in> set (rows out) \<Longrightarrow>
     (''quantity'' \<in> set (columns df) \<longrightarrow>
        (\<exists>q. num_val (cell_of r ''quantity'') = Some q \<and> 0 < q)) \<and>
     (''price'' \<in> set (columns df) \<longrightarrow>
        (\<exists>p. num_val (cell_of r ''price'') = Some p \<and> 0 < p))"
proof -
  assume t: "transform_result X df = Inr out" and r: "r \<in> set (rows out)"
  let ?d1 = "drop_duplicates df"
  from t have cs: "clean_steps X ?d1 = Inr out" by (simp add: transform_result_def)
  from clean_steps_Inr[OF cs] obtain df2 df3 df4 where
    a: "dropna [''transaction_id'', ''date''] ?d1 = Inr df2" "convert_dates X df2 = Inr df3"
       "derive_total X df3 = Inr df4"
       "out = remove_invalid ''price'' (remove_invalid ''quantity''
               (coerce_numeric X ''price'' (coerce_numeric X ''quantity'' df4)))"
    by blast
  let ?F = "coerce_numeric X ''price'' (coerce_numeric X ''quantity'' df4)"
  have "columns df2 = columns df" using dropna_Inr[OF a(1)] by (simp add: columns_drop_duplicates)
  moreover have "columns df3 = columns df2" using convert_dates_Inr[OF a(2)] by simp
  moreover have "set (columns df3) \<subseteq> set (columns df4)" by (rule derive_total_columns[OF a(3)])
  moreover have "columns ?F = columns df4" by (simp add: columns_coerce_numeric)
  ultimately have sub: "set (columns df) \<subseteq> set (columns ?F)" by simp
  have rq: "r \<in> set (rows (remove_invalid ''quantity'' ?F))"
    using r rows_remove_invalid[of "''price''" "remove_invalid ''quantity'' ?F"] unfolding a(4) by blast
  have 1: "gt_zero (cell_of r ''quantity'')" if "''quantity'' \<in> set (columns df)"
    using rows_remove_invalid_mem[of "''quantity''" ?F r] that sub rq by blast
  have 2: "gt_zero (cell_of r ''price'')" if "''price'' \<in> set (columns df)"
  proof -
    have "''price'' \<in> set (columns (remove_invalid ''quantity'' ?F))"
      using that sub by (auto simp: columns_remove_invalid)
    from rows_remove_invalid_mem[OF this] r show ?thesis unfolding a(4) by blast
  qed
  show ?thesis using 1 2 by (simp add: gt_zero_num_val)
qed

theorem transform_keeps_positive_witness:
  "transform_result (demo_externals 10) (demo_frame [1]) = Inr (demo_out_frame [1]) \<and>
   ''quantity'' \<in> set (columns (demo_frame [1])) \<and> ''price'' \<in> set (columns (demo_frame [1])) \<and>
   (\<exists>q. num_val (cell_of (demo_out_row 1) ''quantity'') = Some q \<and> 0 < q) \<and>
   (\<exists>p. num_val (cell_of (demo_out_row 1) ''price'') = Some p \<and> 0 < p)"
proof -
  have c: "''quantity'' \<in> set (columns (demo_frame [1]))" "''price'' \<in> set (columns (demo_frame [1]))"
    by (simp_all add: demo_frame_def)
  have r: "demo_out_row 1 \<in> set (rows (demo_out_frame [1]))" by (simp add: demo_out_frame_def)
  from transform_keeps_positive [OF demo_transform r] c demo_transform show ?thesis by blast
qed

text \<open>
  The claim as stated, for every table, fails on a table without a quantity column:
  the filter on quantity is skipped, and the row that comes out has no quantity at all.
\<close>

theorem transform_keeps_positive_counterexample:
  "fst (transform (demo_externals 10) bare_frame (demo_pipeline 2 None)) = Inr bare_frame \<and>
   rows bare_frame = [[(''transaction_id'', IntV 1), (''date'', DateV 1704067200000000000)]] \<and>
   cell_of [(''transaction_id'', IntV 1), (''date'', DateV 1704067200000000000)] ''quantity''
     = Missing \<and>
   \<not> gt_zero (cell_of [(''transaction_id'', IntV 1), (''date'', DateV 1704067200000000000)]
     ''quantity'')"
  by (simp add: transform_fst eval_defs bare_frame_def)

lemma not_stamp_column: "v \<in> set xs \<Longrightarrow> \<not> is_date v \<Longrightarrow> v \<noteq> NaT \<Longrightarrow> \<not> stamp_column xs"
  by (auto simp: stamp_column_def list_all_iff)

lemma number_not_stamp: "num_val v \<noteq> None \<Longrightarrow> \<not> is_date v \<and> v \<noteq> NaT \<and> \<not> isnull v"
  by (cases v) (simp_all add: isnull_def)

lemma number_not_in_stamp_column: "v \<in> set xs \<Longrightarrow> num_val v \<noteq> None \<Longrightarrow> \<not> stamp_column xs"
  using not_stamp_column number_not_stamp by blast

lemma mul_cell_numbers:
  "num_val a \<noteq> None \<Longrightarrow> num_val b \<noteq> None \<Longrightarrow> mul_cell X xs ys (a, b) = py_mul X a b"
  by (simp add: mul_cell_def number_not_stamp)

lemma py_mul_numbers:
  "num_val a \<noteq> None \<Longrightarrow> num_val b \<noteq> None \<Longrightarrow> \<exists>t. py_mul X a b = Inr t \<and> num_val t \<noteq> None"
  by (cases a; cases b) simp_all

lemma to_numeric_cell_number: "num_val v \<noteq> None \<Longrightarrow> to_numeric_cell X v = v"
  by (cases v) simp_all








lemma map_result_total: "\<forall>x \<in> set xs. \<exists>y. f x = Inr y \<Longrightarrow> \<exists>ys. map_result f xs = Inr ys"
  by (induction xs) auto





section \<open>Idempotence of transform\<close>

lemma cell_of_present: "cell_of r c \<noteq> Missing \<Longrightarrow> map_of r c = Some (cell_of r c)"
  by (auto simp: cell_of_def split: option.splits)

lemma set_column_same:
  "c \<in> set (columns df) \<Longrightarrow> \<forall>r \<in> set (rows df). cell_of r c \<noteq> Missing \<Longrightarrow>
     set_column c (get_column c df) df = df"
proof -
  assume c: "c \<in> set (columns df)" and p: "\<forall>r \<in> set (rows df). cell_of r c \<noteq> Missing"
  have "map (\<lambda>(r, v). AList.update c v r) (zip (rows df) (map (\<lambda>r. cell_of r c) (rows df)))
      = map (\<lambda>r. AList.update c (cell_of r c) r) (rows df)"
    by (simp add: zip_map2 zip_same_conv_map comp_def)
  also have "\<dots> = rows df"
    by (rule map_idI) (simp add: p cell_of_present update_triv)
  finally show ?thesis using c by (simp add: set_column_def get_column_def)
qed

lemma map_result_id: "\<forall>x \<in> set xs. f x = Inr x \<Longrightarrow> map_result f xs = Inr xs"
  by (induction xs) simp_all

lemma drop_duplicates_distinct:
  "sorted_wrt (\<lambda>a b. \<not> row_eq (columns df) a b) (rows df) \<Longrightarrow> drop_duplicates df = df"
proof (cases "empty_frame df")
  case True
  then show ?thesis by (simp add: drop_duplicates_def)
next
  case False
  assume s: "sorted_wrt (\<lambda>a b. \<not> row_eq (columns df) a b) (rows df)"
  let ?rs = "rows df"
  let ?ds = "duplicated_from (columns df) [] ?rs"
  have n: "\<not> ?ds ! i" if "i < length ?rs" for i
    using that s by (auto simp: duplicated_from_nth in_set_take_conv sorted_wrt_iff_nth_less)
  have "map fst (filter (\<lambda>(r, d). \<not> d) (zip ?rs ?ds))
      = map (\<lambda>i. ?rs ! i) (filter (\<lambda>i. \<not> ?ds ! i) [0..<length ?rs])"
    by (rule keep_unmarked_index) (simp add: length_duplicated_from)
  also have "filter (\<lambda>i. \<not> ?ds ! i) [0..<length ?rs] = [0..<length ?rs]"
    by (rule filter_True) (simp add: n)
  finally have "map fst (filter (\<lambda>(r, d). \<not> d) (zip ?rs ?ds)) = ?rs" by (simp add: map_nth)
  then show ?thesis using False by (simp add: drop_duplicates_def duplicated_def)
qed

lemma to_numeric_numeric:
  "list_all is_int64 vs \<or> list_all is_float vs \<Longrightarrow> to_numeric X vs = vs"
proof -
  have i: "to_numeric_cell X v = v \<and> is_int v" if "is_int64 v" for v using that by (cases v) simp_all
  have f: "to_numeric_cell X v = v \<and> as_float X v = v" if "is_float v" for v
    using that by (cases v) simp_all
  assume "list_all is_int64 vs \<or> list_all is_float vs"
  then show ?thesis
  proof
    assume a: "list_all is_int64 vs"
    then have "map (to_numeric_cell X) vs = vs" by (intro map_idI) (simp add: list_all_iff i)
    moreover have "list_all is_int vs" using a by (simp add: list_all_iff i)
    ultimately show ?thesis by (simp add: to_numeric_def)
  next
    assume a: "list_all is_float vs"
    then have m: "map (to_numeric_cell X) vs = vs" by (intro map_idI) (simp add: list_all_iff f)
    have "map (as_float X) vs = vs" using a by (intro map_idI) (simp add: list_all_iff f)
    with m show ?thesis by (simp add: to_numeric_def)
  qed
qed

lemma get_column_set_column_other:
  "c' \<noteq> c \<Longrightarrow> length vs = length (rows df) \<Longrightarrow>
     get_column c' (set_column c vs df) = get_column c' df"
proof -
  assume n: "c' \<noteq> c" and l: "length vs = length (rows df)"
  have "get_column c' (set_column c vs df) = map (\<lambda>r. cell_of r c') (map fst (zip (rows df) vs))"
    using n by (simp add: get_column_def set_column_def comp_def case_prod_beta cell_of_update)
  then show ?thesis using l by (simp add: get_column_def)
qed

lemma remove_invalid_all:
  "\<forall>r \<in> set (rows df). gt_zero (cell_of r c) \<Longrightarrow> remove_invalid c df = df"
  by (simp add: remove_invalid_def keep_positive_def)

lemma gt_zero_not_missing: "gt_zero v \<Longrightarrow> v \<noteq> Missing"
  by (cases v) simp_all

lemma is_date_not_missing: "is_date v \<Longrightarrow> v \<noteq> Missing"
  by (cases v) simp_all

lemma is_date_not_null: "is_date v \<Longrightarrow> \<not> isnull v"
  by (cases v) (simp_all add: isnull_def)

lemma to_datetime_dates: "\<forall>v \<in> set vs. is_date v \<Longrightarrow> to_datetime X vs = Inr vs"
proof (cases "first_non_null vs")
  case None
  assume a: "\<forall>v \<in> set vs. is_date v"
  have "vs = []"
  proof (cases vs)
    case Nil
    then show ?thesis .
  next
    case (Cons v vs')
    with a have "\<not> isnull v" by (simp add: is_date_not_null)
    with Cons None show ?thesis by simp
  qed
  then show ?thesis by (simp add: to_datetime_def)
next
  case (Some v0)
  assume a: "\<forall>v \<in> set vs. is_date v"
  have "map_result (to_datetime_cell X v0) vs = Inr vs"
    by (rule map_result_id) (simp add: a to_datetime_cell_def is_date_not_null)
  with Some show ?thesis by (simp add: to_datetime_def)
qed

lemma set_column_cells:
  "r' \<in> set (rows (set_column c vs df)) \<Longrightarrow>
     \<exists>r \<in> set (rows df). \<forall>c'. c' \<noteq> c \<longrightarrow> cell_of r' c' = cell_of r c'"
proof -
  assume "r' \<in> set (rows (set_column c vs df))"
  from set_column_rows[OF this] obtain i where
    i: "i < length (rows df)" "r' = AList.update c (vs ! i) (rows df ! i)" by blast
  then have "rows df ! i \<in> set (rows df)" by simp
  moreover have "\<forall>c'. c' \<noteq> c \<longrightarrow> cell_of r' c' = cell_of (rows df ! i) c'"
    using i(2) by (simp add: cell_of_update)
  ultimately show ?thesis by blast
qed

lemma mul_columns_clean:
  "clean_table X df \<Longrightarrow>
     \<exists>ts. mul_columns X (get_column ''quantity'' df) (get_column ''price'' df) = Inr ts \<and>
          length ts = length (rows df)"
proof (cases "rows df = []")
  case True
  assume "clean_table X df"
  with True have "mul_opaque X [] [] = Inr []" by (simp add: clean_table_def)
  with True show ?thesis by (simp add: mul_columns_def get_column_def stamp_column_def)
next
  case False
  assume cl: "clean_table X df"
  let ?xs = "get_column ''quantity'' df"
  let ?ys = "get_column ''price'' df"
  from cl have rw: "gt_zero (cell_of r ''quantity'')" "gt_zero (cell_of r ''price'')"
    if "r \<in> set (rows df)" for r
    using that by (simp_all add: clean_table_def list_all_iff)
  have nv: "num_val (cell_of r ''quantity'') \<noteq> None" "num_val (cell_of r ''price'') \<noteq> None"
    if "r \<in> set (rows df)" for r
    using rw[OF that] by (auto simp: gt_zero_num_val)
  from False obtain r0 where r0: "r0 \<in> set (rows df)" by (cases "rows df") auto
  then have "cell_of r0 ''quantity'' \<in> set ?xs" "cell_of r0 ''price'' \<in> set ?ys"
    by (simp_all add: get_column_def)
  then have ns: "\<not> stamp_column ?xs" "\<not> stamp_column ?ys"
    using nv[OF r0] number_not_in_stamp_column by blast+
  have "\<forall>x \<in> set (zip ?xs ?ys). \<exists>y. mul_cell X ?xs ?ys x = Inr y"
  proof
    fix x assume "x \<in> set (zip ?xs ?ys)"
    then obtain r where r: "r \<in> set (rows df)" "x = (cell_of r ''quantity'', cell_of r ''price'')"
      by (auto simp: get_column_def zip_map_map zip_same_conv_map)
    from py_mul_numbers[OF nv[OF r(1)], of X] r(2)
    show "\<exists>y. mul_cell X ?xs ?ys x = Inr y" by (auto simp: mul_cell_numbers nv[OF r(1)])
  qed
  from map_result_total[OF this] obtain ts where
    m: "map_result (mul_cell X ?xs ?ys) (zip ?xs ?ys) = Inr ts" by blast
  from map_result_Inr[OF m] have "length ts = length (rows df)" by (simp add: get_column_def)
  moreover have "mul_columns X ?xs ?ys = Inr ts" using ns m by (simp add: mul_columns_def)
  ultimately show ?thesis by blast
qed

lemma transform_clean:
  "clean_table X df \<Longrightarrow>
     \<exists>ts. mul_columns X (get_column ''quantity'' df) (get_column ''price'' df) = Inr ts \<and>
          length ts = length (rows df) \<and>
          transform_result X df = Inr (set_column ''total_amount'' ts df)"
proof -
  assume cl: "clean_table X df"
  then have cols: "''transaction_id'' \<in> set (columns df)" "''date'' \<in> set (columns df)"
      "''quantity'' \<in> set (columns df)" "''price'' \<in> set (columns df)"
    and srt: "sorted_wrt (\<lambda>a b. \<not> row_eq (columns df) a b) (rows df)"
    and nq: "numeric_column ''quantity'' df" and np: "numeric_column ''price'' df"
    by (simp_all add: clean_table_def)
  from cl have rw: "\<not> isnull (cell_of r ''transaction_id'')" "is_date (cell_of r ''date'')"
      "gt_zero (cell_of r ''quantity'')" "gt_zero (cell_of r ''price'')"
    if "r \<in> set (rows df)" for r
    using that by (simp_all add: clean_table_def list_all_iff)
  have 1: "drop_duplicates df = df" by (rule drop_duplicates_distinct[OF srt])
  have "filter (\<lambda>r. \<not> list_ex (\<lambda>c. isnull (cell_of r c)) [''transaction_id'', ''date'']) (rows df)
      = rows df"
    by (rule filter_True) (auto dest: rw(1) rw(2) is_date_not_null)
  then have 2: "dropna [''transaction_id'', ''date''] df = Inr df"
    using cols by (simp add: dropna_def)
  have "to_datetime X (get_column ''date'' df) = Inr (get_column ''date'' df)"
    by (rule to_datetime_dates) (auto simp: get_column_def intro: rw(2))
  moreover have "set_column ''date'' (get_column ''date'' df) df = df"
    by (rule set_column_same[OF cols(2)]) (auto dest: rw(2) is_date_not_missing)
  ultimately have 3: "convert_dates X df = Inr df" using cols by (simp add: convert_dates_def)
  from mul_columns_clean[OF cl] obtain ts where
    ts: "mul_columns X (get_column ''quantity'' df) (get_column ''price'' df) = Inr ts"
    and l: "length ts = length (rows df)" by blast
  let ?T = "set_column ''total_amount'' ts df"
  have 4: "derive_total X df = Inr ?T" using cols ts by (simp add: derive_total_def)
  have cT: "set (columns df) \<subseteq> set (columns ?T)" by (auto simp: columns_set_column)
  have gq: "get_column ''quantity'' ?T = get_column ''quantity'' df"
    and gp: "get_column ''price'' ?T = get_column ''price'' df"
    by (simp_all add: get_column_set_column_other l)
  have rT: "gt_zero (cell_of r ''quantity'') \<and> gt_zero (cell_of r ''price'')"
    if "r \<in> set (rows ?T)" for r
  proof -
    from set_column_cells[OF that] obtain r0 where "r0 \<in> set (rows df)"
      "\<And>c'. c' \<noteq> ''total_amount'' \<Longrightarrow> cell_of r c' = cell_of r0 c'" by blast
    then show ?thesis using rw(3)[of r0] rw(4)[of r0] by simp
  qed
  have "to_numeric X (get_column ''quantity'' ?T) = get_column ''quantity'' ?T"
    using nq unfolding gq numeric_column_def by (rule to_numeric_numeric)
  moreover have "set_column ''quantity'' (get_column ''quantity'' ?T) ?T = ?T"
    using cols cT by (intro set_column_same) (auto dest: rT gt_zero_not_missing)
  ultimately have 5: "coerce_numeric X ''quantity'' ?T = ?T"
    by (simp add: coerce_numeric_def)
  have "to_numeric X (get_column ''price'' ?T) = get_column ''price'' ?T"
    using np unfolding gp numeric_column_def by (rule to_numeric_numeric)
  moreover have "set_column ''price'' (get_column ''price'' ?T) ?T = ?T"
    using cols cT by (intro set_column_same) (auto dest: rT gt_zero_not_missing)
  ultimately have 6: "coerce_numeric X ''price'' ?T = ?T"
    by (simp add: coerce_numeric_def)
  have 7: "remove_invalid ''quantity'' ?T = ?T" by (rule remove_invalid_all) (simp add: rT)
  have 8: "remove_invalid ''price'' ?T = ?T" by (rule remove_invalid_all) (simp add: rT)
  have "transform_result X df = Inr ?T"
    by (simp add: transform_result_def clean_steps_def 1 2 3 4 5 6 7 8)
  with ts l show ?thesis by blast
qed

lemma set_column_nth:
  "length vs = length (rows df) \<Longrightarrow> i < length (rows df) \<Longrightarrow>
     rows (set_column c vs df) ! i = AList.update c (vs ! i) (rows df ! i)"
  by (simp add: set_column_def)

lemma length_set_column:
  "length vs = length (rows df) \<Longrightarrow> length (rows (set_column c vs df)) = length (rows df)"
  by (simp add: set_column_def)

lemma set_column_idem:
  "length vs = length (rows df) \<Longrightarrow> set_column c vs (set_column c vs df) = set_column c vs df"
proof -
  assume l: "length vs = length (rows df)"
  let ?T = "set_column c vs df"
  have lT: "length vs = length (rows ?T)" using l by (simp add: length_set_column)
  have "rows (set_column c vs ?T) = rows ?T"
  proof (rule nth_equalityI)
    show "length (rows (set_column c vs ?T)) = length (rows ?T)"
      using lT by (simp add: length_set_column)
  next
    fix i assume "i < length (rows (set_column c vs ?T))"
    then have i: "i < length (rows df)" using l lT by (simp add: length_set_column)
    then have "rows (set_column c vs ?T) ! i = AList.update c (vs ! i) (rows ?T ! i)"
      using lT l by (simp add: set_column_nth length_set_column)
    also have "\<dots> = rows ?T ! i" using i l by (simp add: set_column_nth)
    finally show "rows (set_column c vs ?T) ! i = rows ?T ! i" .
  qed
  moreover have "columns (set_column c vs ?T) = columns ?T" by (simp add: set_column_def)
  ultimately show ?thesis by (simp add: set_column_def)
qed

lemma rows_agree_update:
  "c \<notin> set cs \<Longrightarrow>
     rows_agree s cs (AList.update c v r) (AList.update c v' r') = rows_agree s cs r r'"
  unfolding rows_agree_def list_all_iff by (auto simp: cell_of_update)

lemma rows_agree_filter: "rows_agree s cs a b \<Longrightarrow> rows_agree s (filter P cs) a b"
  by (simp add: rows_agree_def list_all_iff)

lemma other_columns_set_column:
  "other_columns (set_column ''total_amount'' ts df) = other_columns df"
  by (simp add: other_columns_def set_column_def)

lemma four_columns_not_single:
  "set [''transaction_id'', ''date'', ''quantity'', ''price''] \<subseteq> set cols \<Longrightarrow> length cols \<noteq> 1"
  by (auto simp: length_Suc_conv)

lemma distinct_besides_total_set_column:
  "distinct_besides_total df \<Longrightarrow> length ts = length (rows df) \<Longrightarrow>
     distinct_besides_total (set_column ''total_amount'' ts df)"
proof -
  assume s: "distinct_besides_total df" and l: "length ts = length (rows df)"
  let ?T = "set_column ''total_amount'' ts df"
  have n: "''total_amount'' \<notin> set (other_columns df)" by (simp add: other_columns_def)
  have "\<not> rows_agree False (other_columns df) (rows ?T ! i) (rows ?T ! j)"
    if "i < j" "j < length (rows ?T)" for i j
  proof -
    from that l have j: "j < length (rows df)" and i: "i < length (rows df)"
      by (simp_all add: length_set_column)
    from s that(1) j have "\<not> rows_agree False (other_columns df) (rows df ! i) (rows df ! j)"
      by (simp add: distinct_besides_total_def sorted_wrt_iff_nth_less)
    then show ?thesis using i j l n by (simp add: set_column_nth rows_agree_update)
  qed
  then show ?thesis
    by (simp add: distinct_besides_total_def sorted_wrt_iff_nth_less other_columns_set_column)
qed

lemma clean_table_total:
  "clean_table X df \<Longrightarrow> distinct_besides_total df \<Longrightarrow> length ts = length (rows df) \<Longrightarrow>
     clean_table X (set_column ''total_amount'' ts df)"
proof -
  assume cl: "clean_table X df" and s: "distinct_besides_total df"
    and l: "length ts = length (rows df)"
  let ?T = "set_column ''total_amount'' ts df"
  have 1: "set [''transaction_id'', ''date'', ''quantity'', ''price''] \<subseteq> set (columns ?T)"
    using cl by (auto simp: clean_table_def columns_set_column)
  from distinct_besides_total_set_column[OF s l]
  have sT: "sorted_wrt (\<lambda>a b. \<not> rows_agree False (other_columns ?T) a b) (rows ?T)"
    by (simp add: distinct_besides_total_def)
  have 2: "sorted_wrt (\<lambda>a b. \<not> row_eq (columns ?T) a b) (rows ?T)"
  proof (rule sorted_wrt_mono_rel[OF _ sT])
    fix a b assume "\<not> rows_agree False (other_columns ?T) a b"
    moreover have "rows_agree False (other_columns ?T) a b" if "row_eq (columns ?T) a b"
      using that four_columns_not_single[OF 1] unfolding other_columns_def row_eq_def
      by (simp add: rows_agree_filter)
    ultimately show "\<not> row_eq (columns ?T) a b" by blast
  qed
  have 3: "list_all (\<lambda>r. \<not> isnull (cell_of r ''transaction_id'') \<and> is_date (cell_of r ''date'') \<and>
                    gt_zero (cell_of r ''quantity'') \<and> gt_zero (cell_of r ''price'')) (rows ?T)"
    unfolding list_all_iff
  proof
    fix r assume "r \<in> set (rows ?T)"
    from set_column_cells[OF this] obtain r0 where r0: "r0 \<in> set (rows df)"
      "\<And>c'. c' \<noteq> ''total_amount'' \<Longrightarrow> cell_of r c' = cell_of r0 c'" by blast
    from cl r0(1) have "\<not> isnull (cell_of r0 ''transaction_id'') \<and> is_date (cell_of r0 ''date'') \<and>
                    gt_zero (cell_of r0 ''quantity'') \<and> gt_zero (cell_of r0 ''price'')"
      by (simp add: clean_table_def list_all_iff)
    then show "\<not> isnull (cell_of r ''transaction_id'') \<and> is_date (cell_of r ''date'') \<and>
                    gt_zero (cell_of r ''quantity'') \<and> gt_zero (cell_of r ''price'')"
      using r0(2) by simp
  qed
  have 4: "numeric_column ''quantity'' ?T" "numeric_column ''price'' ?T"
    using cl by (simp_all add: clean_table_def numeric_column_def get_column_set_column_other l)
  have "rows df = []" if "rows ?T = []"
    using that length_set_column[OF l, of "''total_amount''"] by simp
  with cl have 5: "rows ?T = [] \<longrightarrow> mul_opaque X [] [] = Inr []" by (simp add: clean_table_def)
  show ?thesis unfolding clean_table_def using 1 2 3 4 5 by blast
qed

text \<open>
  Claim C8 (amended).  For a table that is clean already (the four columns are there,
  no two rows are equal, no row lacks a transaction id or a date, the dates are
  timestamps, quantity and price are numeric columns of positive numbers) and in which
  no two rows are equal on the columns other than \<open>total_amount\<close>, \<open>transform\<close> returns a
  table, and \<open>transform\<close> applied to that table returns the same table.
\<close>

theorem transform_idempotent_on_clean:
  "clean_table X df \<Longrightarrow> distinct_besides_total df \<Longrightarrow>
     \<exists>out. fst (transform X df s) = Inr out \<and> fst (transform X out s') = Inr out"
proof -
  assume cl: "clean_table X df" and s: "distinct_besides_total df"
  from transform_clean[OF cl] obtain ts where
    ts: "mul_columns X (get_column ''quantity'' df) (get_column ''price'' df) = Inr ts"
    and l: "length ts = length (rows df)"
    and t1: "transform_result X df = Inr (set_column ''total_amount'' ts df)" by blast
  let ?T = "set_column ''total_amount'' ts df"
  have clT: "clean_table X ?T" by (rule clean_table_total[OF cl s l])
  from transform_clean[OF clT] obtain ts' where
    ts': "mul_columns X (get_column ''quantity'' ?T) (get_column ''price'' ?T) = Inr ts'"
    and t2: "transform_result X ?T = Inr (set_column ''total_amount'' ts' ?T)" by blast
  have "ts' = ts" using ts ts' by (simp add: get_column_set_column_other l)
  then have "transform_result X ?T = Inr ?T" using t2 l by (simp add: set_column_idem)
  with t1 show ?thesis by (simp add: transform_fst)
qed

theorem transform_idempotent_on_clean_witness:
  "clean_table (demo_externals 10) stale_distinct_frame \<and>
   distinct_besides_total stale_distinct_frame \<and>
   fst (transform (demo_externals 10) stale_distinct_frame (demo_pipeline 2 None)) =
     Inr (demo_out_frame [1, 2]) \<and>
   (\<exists>out. fst (transform (demo_externals 10) stale_distinct_frame (demo_pipeline 2 None)) = Inr out \<and>
      fst (transform (demo_externals 10) out (demo_pipeline 2 None)) = Inr out) \<and>
   clean_table (demo_externals 10) (demo_frame []) \<and> distinct_besides_total (demo_frame []) \<and>
   (\<exists>out. fst (transform (demo_externals 10) (demo_frame []) (demo_pipeline 2 None)) = Inr out \<and>
      fst (transform (demo_externals 10) out (demo_pipeline 2 None)) = Inr out)"
proof -
  have c: "clean_table (demo_externals 10) stale_distinct_frame"
    and s: "distinct_besides_total stale_distinct_frame"
    by (simp_all add: clean_table_def distinct_besides_total_def other_columns_def
        numeric_column_def stale_distinct_frame_def demo_row_def row_eq_def rows_agree_def
        cell_eq_def value_eq_def cell_of_def get_column_def isnull_def)
  have t: "fst (transform (demo_externals 10) stale_distinct_frame (demo_pipeline 2 None)) =
     Inr (demo_out_frame [1, 2])"
    by (simp add: transform_fst eval_defs stale_distinct_frame_def demo_row_def
        demo_out_frame_def demo_out_row_def)
  have c0: "clean_table (demo_externals 10) (demo_frame [])"
    and s0: "distinct_besides_total (demo_frame [])"
    by (simp_all add: clean_table_def distinct_besides_total_def numeric_column_def
        demo_frame_def get_column_def demo_externals_def)
  from transform_idempotent_on_clean [OF c s, of "demo_pipeline 2 None" "demo_pipeline 2 None"]
    transform_idempotent_on_clean [OF c0 s0, of "demo_pipeline 2 None" "demo_pipeline 2 None"]
    c s t c0 s0
  show ?thesis by blast
qed

text \<open>
  The claim as stated fails on a clean table with two rows that differ only in a stale
  \<open>total_amount\<close>: they are not duplicates, the first pass gives both the same
  \<open>total_amount\<close>, and the second pass removes one of them.
\<close>

theorem transform_idempotent_counterexample:
  "clean_table (demo_externals 10) stale_total_frame \<and>
   fst (transform (demo_externals 10) stale_total_frame (demo_pipeline 2 None)) =
     Inr (demo_out_frame [1, 1]) \<and>
   fst (transform (demo_externals 10) (demo_out_frame [1, 1]) (demo_pipeline 2 None)) =
     Inr (demo_out_frame [1]) \<and>
   demo_out_frame [1] \<noteq> demo_out_frame [1, 1]"
  by (simp add: transform_fst eval_defs clean_table_def numeric_column_def stale_total_frame_def
      demo_row_def demo_out_frame_def demo_out_row_def)

end
